theory Spec2Isabelle
  imports Complex_Main "HOL-Library.Word" "HOL-Library.Sublist"
begin

section \<open>Local Texture Search: the model of image\_compare.py\<close>

text \<open>
  The program compares one key image with every file of a directory and appends a line
  to a log file for every file that is similar enough. The image library (PIL, OpenCV,
  numpy) is outside the program: its operations are parameters of the model (the record
  \<open>env\<close> below), everything else is translated from the Python source.
\<close>

subsection \<open>Python values\<close>

text \<open>Exceptions are values. \<open>SystemExit n\<close> is what \<^verbatim>\<open>exit(n)\<close> raises.\<close>

datatype exn =
    FileNotFoundError
  | UnidentifiedImageError
  | PermissionError
  | IsADirectoryError
  | OSError
  | UnicodeEncodeError
  | Cv2Error
  | TypeError
  | ValueError
  | IndexError
  | ZeroDivisionError
  | SystemExit int

text \<open>
  Slicing with non-negative or negative bounds, as Python does it: a negative bound
  counts from the end, and every bound is clamped to the list.
\<close>

definition slice_bound :: "'a list \<Rightarrow> int \<Rightarrow> nat" where
  "slice_bound xs i =
     (if i < 0 then nat (max 0 (int (length xs) + i)) else min (length xs) (nat i))"

definition py_slice :: "'a list \<Rightarrow> int \<Rightarrow> int \<Rightarrow> 'a list" where
  \<comment> \<open>\<^verbatim>\<open>xs[i:j]\<close>\<close>
  "py_slice xs i j = take (slice_bound xs j - slice_bound xs i) (drop (slice_bound xs i) xs)"

definition py_slice_from :: "'a list \<Rightarrow> int \<Rightarrow> 'a list" where
  \<comment> \<open>\<^verbatim>\<open>xs[i:]\<close>\<close>
  "py_slice_from xs i = drop (slice_bound xs i) xs"

text \<open>\<^verbatim>\<open>str(n)\<close> for a non-negative integer: its decimal digits.\<close>

definition digit_char :: "nat \<Rightarrow> char" where
  \<comment> \<open>only used below 10\<close>
  "digit_char d = ''0123456789'' ! d"

fun str_nat :: "nat \<Rightarrow> string" where
  "str_nat n = (if n < 10 then [digit_char n] else str_nat (n div 10) @ [digit_char (n mod 10)])"

declare str_nat.simps [simp del]

subsection \<open>Images and the mean squared error\<close>

text \<open>
  A decoded grayscale image is a numpy array of unsigned bytes: its shape and its
  buffer, row after row. Every image the program compares went through
  \<^verbatim>\<open>img.resize((1024, 1024))\<close>, so it is \<open>normalized\<close>.
\<close>

record image =
  shape0 :: nat
  shape1 :: nat
  pixels :: "8 word list"

definition normalized :: "image \<Rightarrow> bool" where
  "normalized a \<longleftrightarrow>
     shape0 a = 1024 \<and> shape1 a = 1024 \<and> length (pixels a) = 1024 * 1024"

text \<open>
  \<^verbatim>\<open>err = np.sum((image_a.astype("float") - image_b.astype("float")) ** 2)\<close>,
  \<^verbatim>\<open>err /= float(image_a.shape[0] * image_a.shape[1])\<close>.
  The source notes that the two images must have the same dimension. On normalized
  images the floating-point computation is exact: every square and every partial sum is
  an integer below \<open>2 ^ 53\<close>, and the divisor is \<open>2 ^ 20\<close>. So the value is the
  real number below.
\<close>

definition squared_error :: "8 word list \<Rightarrow> 8 word list \<Rightarrow> real" where
  "squared_error xs ys = (\<Sum>(x, y) \<leftarrow> zip xs ys. (real (unat x) - real (unat y)) ^ 2)"

definition mse :: "image \<Rightarrow> image \<Rightarrow> real" where
  "mse image_a image_b =
     squared_error (pixels image_a) (pixels image_b) / real (shape0 image_a * shape1 image_a)"

subsection \<open>The work partitioner\<close>

text \<open>
  Lines 144 to 158 of \<^verbatim>\<open>multithreading_compare\<close>.
  \<^verbatim>\<open>mod = len(filename_list) % use_threading\<close> raises for a zero worker count;
  \<^verbatim>\<open>round((len(filename_list) - mod) / use_threading)\<close> divides a multiple of
  \<open>use_threading\<close>, so the quotient is exact.
\<close>

definition share_of_files :: "'a list \<Rightarrow> int \<Rightarrow> int" where
  "share_of_files filename_list use_threading =
     (int (length filename_list) - int (length filename_list) mod use_threading) div use_threading"

definition chunk :: "'a list \<Rightarrow> int \<Rightarrow> int \<Rightarrow> 'a list" where
  "chunk filename_list use_threading i =
     (let share = share_of_files filename_list use_threading;
          index_1 = (i - 1) * share
      in if i < use_threading then py_slice filename_list index_1 (i * share)
         else py_slice_from filename_list index_1)"

definition filename_list_chunks :: "'a list \<Rightarrow> int \<Rightarrow> 'a list list" where
  "filename_list_chunks filename_list use_threading =
     map (chunk filename_list use_threading) [1..use_threading]"

subsection \<open>The world outside the program\<close>

text \<open>
  The library calls the program makes, as parameters:
  \<^item> \<open>pil_load\<close>: the body of the \<^verbatim>\<open>with Image.open(...)\<close> block (open, resize to
    1024 by 1024, save as PNG, take the bytes), with the exception it may raise;
  \<^item> \<open>cv_gray\<close>: \<^verbatim>\<open>cv2.imdecode\<close> followed by \<^verbatim>\<open>cv2.cvtColor(.., COLOR_BGR2GRAY)\<close>,
    \<open>None\<close> when OpenCV raises \<^verbatim>\<open>cv2.error\<close>;
  \<^item> \<open>sift_descriptors\<close>: \<^verbatim>\<open>sift.detectAndCompute(img, None)[1]\<close>, which is
    \<^verbatim>\<open>None\<close> when the image has no keypoint;
  \<^item> \<open>bf_match\<close>: \<^verbatim>\<open>len(bf.match(d1, d2))\<close>, \<open>None\<close> when the matcher raises
    \<^verbatim>\<open>cv2.error\<close>;
  \<^item> \<open>open_append\<close>: the exception \<^verbatim>\<open>open(name, "a")\<close> raises for a name, if any (a
    directory that does not exist or may not be written); \<open>write_text\<close>: the exception
    \<^verbatim>\<open>f.write(line)\<close> raises for a file and a line, if any (a character the encoding
    of the file does not have);
  \<^item> \<open>str_float\<close>: \<^verbatim>\<open>str\<close> of a float; \<open>elapsed_text\<close>: the run time as
    \<^verbatim>\<open>{time_stop - time_start:0.4f}\<close> prints it;
  \<^item> \<open>argv\<close>, \<open>getcwd\<close>, \<open>isfile\<close>, \<open>isdir\<close>, \<open>glob\<close>: the process and the file
    system as \<^verbatim>\<open>main\<close> reads them; \<open>py_int\<close>: \<^verbatim>\<open>int\<close> of a string, \<open>None\<close> for
    \<^verbatim>\<open>ValueError\<close>; \<open>time_prefix\<close>: the \<^verbatim>\<open>time.strftime\<close> text of the start time.
\<close>

record 'd env =
  pil_load :: "string \<Rightarrow> exn + 8 word list"
  cv_gray :: "8 word list \<Rightarrow> image option"
  sift_descriptors :: "image \<Rightarrow> 'd list option"
  bf_match :: "'d list option \<Rightarrow> 'd list option \<Rightarrow> nat option"
  open_append :: "string \<Rightarrow> exn option"
  write_text :: "string \<Rightarrow> string \<Rightarrow> exn option"
  str_float :: "real \<Rightarrow> string"
  elapsed_text :: string
  argv :: "string list"
  getcwd :: string
  isfile :: "string \<Rightarrow> bool"
  isdir :: "string \<Rightarrow> bool"
  glob :: "string \<Rightarrow> string list"
  py_int :: "string \<Rightarrow> int option"
  time_prefix :: string

text \<open>
  \<^verbatim>\<open>argument_dict\<close>: the keyword arguments of \<^verbatim>\<open>image_compare\<close>. A key that is not
  in the dictionary is \<open>None\<close>; \<^verbatim>\<open>compare_file\<close> is there from the start.
\<close>

record argument_dict =
  arg_compare_file :: string
  arg_verbose :: "bool option"
  arg_compare :: "bool option"
  arg_highlowres :: "bool option"
  arg_log_filename :: "string option"
  arg_filename_list :: "string list option"

text \<open>
  What the program changes: the files it writes (a file is the list of the strings
  written to it, in order), the lines it prints, and the worker processes it starts, each
  with the keyword arguments pickled at its start. \<open>metric_calls\<close> records which metric
  branch ran for which candidate; the program itself does not read it.
\<close>

datatype metric = SIFT | MSE

record world =
  files :: "string \<rightharpoonup> string list"
  stdout :: "string list"
  started :: "argument_dict list"
  metric_calls :: "(string \<times> metric) list"

datatype 'a outcome = Returned 'a world | Raised exn world

definition world_after :: "'a outcome \<Rightarrow> world" where
  "world_after r = (case r of Returned x w \<Rightarrow> w | Raised e w \<Rightarrow> w)"

definition print_line :: "string \<Rightarrow> world \<Rightarrow> world" where
  "print_line s w = w\<lparr>stdout := stdout w @ [s]\<rparr>"

definition log_lines :: "world \<Rightarrow> string \<Rightarrow> string list" where
  "log_lines w name = (case files w name of None \<Rightarrow> [] | Some ls \<Rightarrow> ls)"

subsection \<open>image\_compare\<close>

text \<open>
  \<^verbatim>\<open>with open(log_filename, "a") as f: if verbose: print(log_filename); f.write(line)\<close>,
  in three steps. Opening may raise: always for the empty name (the default of
  \<^verbatim>\<open>log_filename\<close>), and for any other name the file system refuses; nothing is
  created then. Opening in append mode creates the file when it is not there and keeps
  what it holds when it is. Writing may raise after that, and then nothing was written.
  The program catches neither exception.
\<close>

definition log_match :: "'d env \<Rightarrow> string \<Rightarrow> bool \<Rightarrow> string \<Rightarrow> world \<Rightarrow> unit outcome" where
  "log_match env log_filename verbose line w =
     (if log_filename = [] then Raised FileNotFoundError w
      else case open_append env log_filename of
             Some e \<Rightarrow> Raised e w
           | None \<Rightarrow>
               (let w1 = w\<lparr>files := (files w)(log_filename \<mapsto> log_lines w log_filename)\<rparr>;
                    w2 = (if verbose then print_line log_filename w1 else w1)
                in case write_text env log_filename line of
                     Some e \<Rightarrow> Raised e w2
                   | None \<Rightarrow>
                       Returned () (w2\<lparr>files :=
                         (files w2)(log_filename \<mapsto> log_lines w2 log_filename @ [line])\<rparr>)))"

text \<open>Lines 41 to 57: the key image. Only two of the exceptions are turned into an exit.\<close>

definition load_key :: "'d env \<Rightarrow> string \<Rightarrow> world \<Rightarrow> image outcome" where
  "load_key env compare_file w =
     (case pil_load env compare_file of
        Inl e \<Rightarrow>
          if e = UnidentifiedImageError then
            Raised (SystemExit 1) (print_line ''Error: invalid compare_file, ensure file is an image'' w)
          else if e = PermissionError then
            Raised (SystemExit 1) (print_line
              ''Error: insufficient permissions to read compare_file, ensure your account has access to compare_file'' w)
          else Raised e w
      | Inr key_buf \<Rightarrow>
          (case cv_gray env key_buf of
             None \<Rightarrow> Raised Cv2Error w
           | Some key_img \<Rightarrow> Returned key_img w))"

definition skipped :: "exn \<Rightarrow> bool" where
  \<comment> \<open>the three \<^verbatim>\<open>except ...: continue\<close> clauses\<close>
  "skipped e \<longleftrightarrow> e = FileNotFoundError \<or> e = UnidentifiedImageError \<or> e = PermissionError"

definition sift_line :: "string \<Rightarrow> nat \<Rightarrow> string" where
  \<comment> \<open>\<^verbatim>\<open>file_name + " " + " SIFT Matches:" + str(len(matches)) + "\n"\<close>\<close>
  "sift_line file_name n = file_name @ '' '' @ '' SIFT Matches:'' @ str_nat n @ [CHR 0x0A]"

definition mse_line :: "'d env \<Rightarrow> string \<Rightarrow> real \<Rightarrow> string" where
  \<comment> \<open>\<^verbatim>\<open>file_name + " " + str(comparison_mse) + " \n"\<close>\<close>
  "mse_line env file_name comparison_mse =
     file_name @ '' '' @ str_float env comparison_mse @ [CHR '' '', CHR 0x0A]"

text \<open>Lines 66 to 129: the body of the loop, after \<^verbatim>\<open>processed += 1\<close>.\<close>

definition compare_candidate ::
  "'d env \<Rightarrow> image \<Rightarrow> string \<Rightarrow> bool \<Rightarrow> bool \<Rightarrow> bool \<Rightarrow> string \<Rightarrow> world \<Rightarrow> unit outcome" where
  "compare_candidate env key_img log_filename verbose compare highlowres file_name w =
     (case pil_load env file_name of
        Inl e \<Rightarrow> if skipped e then Returned () w else Raised e w
      | Inr tex_buf \<Rightarrow>
          (case cv_gray env tex_buf of
             None \<Rightarrow> Raised Cv2Error w
           | Some tex_img \<Rightarrow>
               if compare then
                 (let w1 = w\<lparr>metric_calls := metric_calls w @ [(file_name, SIFT)]\<rparr>;
                      descriptors_1 = sift_descriptors env key_img;
                      descriptors_2 = sift_descriptors env tex_img
                  in case bf_match env descriptors_1 descriptors_2 of
                       None \<Rightarrow> Returned () w1
                     | Some n \<Rightarrow>
                         (case (if n > 400 then log_match env log_filename verbose (sift_line file_name n) w1
                                else Returned () w1) of
                            Raised e w2 \<Rightarrow> Raised e w2
                          | Returned u w2 \<Rightarrow>
                              Returned () (if verbose then print_line (''SIFT: '' @ str_nat n) w2 else w2)))
               else if highlowres then
                 (let w1 = w\<lparr>metric_calls := metric_calls w @ [(file_name, MSE)]\<rparr>;
                      comparison_mse = mse key_img tex_img;
                      w2 = (if verbose then print_line (''MSE: '' @ str_float env comparison_mse) w1 else w1)
                  in if comparison_mse < 1000
                     then log_match env log_filename verbose (mse_line env file_name comparison_mse) w2
                     else Returned () w2)
               else Returned () w))"

text \<open>Lines 64 to 129: the loop, with the count of processed files.\<close>

fun scan ::
  "'d env \<Rightarrow> image \<Rightarrow> string \<Rightarrow> bool \<Rightarrow> bool \<Rightarrow> bool \<Rightarrow> string list \<Rightarrow> nat \<Rightarrow> world
     \<Rightarrow> nat outcome" where
  "scan env key_img log_filename verbose compare highlowres [] processed w = Returned processed w"
| "scan env key_img log_filename verbose compare highlowres (file_name # rest) processed w =
     (case compare_candidate env key_img log_filename verbose compare highlowres file_name w of
        Raised e w' \<Rightarrow> Raised e w'
      | Returned u w' \<Rightarrow>
          scan env key_img log_filename verbose compare highlowres rest (processed + 1) w')"

text \<open>
  The whole function. Iterating over the default \<^verbatim>\<open>filename_list=None\<close> raises
  \<^verbatim>\<open>TypeError\<close>.
\<close>

definition image_compare ::
  "'d env \<Rightarrow> string list option \<Rightarrow> string \<Rightarrow> string \<Rightarrow> bool \<Rightarrow> bool \<Rightarrow> bool \<Rightarrow> world
     \<Rightarrow> nat outcome" where
  "image_compare env filename_list compare_file log_filename verbose compare highlowres w =
     (case load_key env compare_file w of
        Raised e w' \<Rightarrow> Raised e w'
      | Returned key_img w0 \<Rightarrow>
          (case filename_list of
             None \<Rightarrow> Raised TypeError w0
           | Some file_names \<Rightarrow>
               (case scan env key_img log_filename verbose compare highlowres file_names 0 w0 of
                  Raised e w' \<Rightarrow> Raised e w'
                | Returned processed w' \<Rightarrow>
                    Returned processed
                      (if verbose
                       then print_line (''Processed '' @ str_nat processed @ '' files'')
                              (print_line (''Ran in '' @ elapsed_text env @ '' seconds'') w')
                       else w'))))"

text \<open>\<^verbatim>\<open>image_compare(**argument_dict)\<close>: a missing key takes the default of its parameter.\<close>

definition flag :: "bool option \<Rightarrow> bool" where
  "flag b = (case b of None \<Rightarrow> False | Some v \<Rightarrow> v)"

definition image_compare_kwargs :: "'d env \<Rightarrow> argument_dict \<Rightarrow> world \<Rightarrow> nat outcome" where
  "image_compare_kwargs env d w =
     image_compare env (arg_filename_list d) (arg_compare_file d)
       (case arg_log_filename d of None \<Rightarrow> [] | Some n \<Rightarrow> n)
       (flag (arg_verbose d)) (flag (arg_compare d)) (flag (arg_highlowres d)) w"

subsection \<open>multithreading\_compare\<close>

text \<open>
  \<^verbatim>\<open>process.start()\<close> with the start method \<^verbatim>\<open>spawn\<close> pickles the keyword arguments
  at that moment, so each worker gets the dictionary as it is when it is started; the
  dictionary itself is the same object throughout and is updated in place.
\<close>

definition start_process :: "argument_dict \<Rightarrow> world \<Rightarrow> world" where
  "start_process kwargs w = w\<lparr>started := started w @ [kwargs]\<rparr>"

definition multithreading_compare ::
  "string list \<Rightarrow> argument_dict \<Rightarrow> int \<Rightarrow> world \<Rightarrow> argument_dict outcome" where
  "multithreading_compare filename_list argument_dict use_threading w =
     (if use_threading = 0 then Raised ZeroDivisionError w
      else
        let chunks = filename_list_chunks filename_list use_threading;
            (d2, w2) =
              (if use_threading \<ge> 2 then
                 (let d0 = argument_dict\<lparr>arg_filename_list := Some (chunks ! 0)\<rparr>;
                      w0 = start_process d0 w;
                      d1 = d0\<lparr>arg_filename_list := Some (chunks ! 1)\<rparr>
                  in (d1, start_process d1 w0))
               else (argument_dict, w));
            (d3, w3) =
              (if use_threading \<ge> 3 then
                 (let d = d2\<lparr>arg_filename_list := Some (chunks ! 2)\<rparr> in (d, start_process d w2))
               else (d2, w2));
            (d4, w4) =
              (if use_threading \<ge> 4 then
                 (let d = d3\<lparr>arg_filename_list := Some (chunks ! 3)\<rparr> in (d, start_process d w3))
               else (d3, w3))
        in Returned d4 w4)"

subsection \<open>main\<close>

fun str_in :: "string \<Rightarrow> string \<Rightarrow> bool" where
  \<comment> \<open>\<^verbatim>\<open>sub in s\<close>\<close>
  "str_in sub [] = (sub = [])"
| "str_in sub (c # cs) = (take (length sub) (c # cs) = sub \<or> str_in sub cs)"

definition texture_path_of :: "string \<Rightarrow> string" where
  \<comment> \<open>lines 196 to 198; \<^verbatim>\<open>texture_path[:-1]\<close> is the path without its last character\<close>
  "texture_path_of a =
     (let texture_path = map (\<lambda>c. if c = CHR 0x5C then CHR ''/'' else c) a
      in if \<not> (butlast texture_path = ''/'') then texture_path @ ''/'' else texture_path)"

text \<open>Lines 206 to 227: the loop over \<^verbatim>\<open>sys.argv[2:]\<close>.\<close>

fun parameters ::
  "'d env \<Rightarrow> string list \<Rightarrow> argument_dict \<Rightarrow> int \<Rightarrow> world \<Rightarrow> (argument_dict \<times> int) outcome" where
  "parameters env [] d use_threading w = Returned (d, use_threading) w"
| "parameters env (parameter # rest) d use_threading w =
     (case (if str_in ''threading='' parameter then
              (case py_int env (drop (length ''threading='') parameter) of
                 None \<Rightarrow> Raised (SystemExit 1) (print_line
                   (''Error: thread count could not be converted to a number, enter a number for thread count or''
                    @ ''see README.md for usage.'') w)
               | Some n \<Rightarrow>
                   if \<not> (2 \<le> n \<and> n < 5)
                   then Raised (SystemExit 1) (print_line ''Error: thread count must be between 2 and 4'' w)
                   else Returned n w)
            else Returned use_threading w) of
        Raised e w' \<Rightarrow> Raised e w'
      | Returned t w' \<Rightarrow>
          (let d1 = (if parameter = ''-v'' then d\<lparr>arg_verbose := Some True\<rparr> else d);
               d2 = (if parameter = ''compare'' then d1\<lparr>arg_compare := Some True\<rparr> else d1);
               d3 = (if parameter = ''highlowres'' then d2\<lparr>arg_highlowres := Some True\<rparr> else d2)
           in parameters env rest d3 t w'))"

text \<open>Lines 187 to 238: the command line, up to the checks of the search mode.\<close>

definition parse_arguments :: "'d env \<Rightarrow> world \<Rightarrow> (argument_dict \<times> string \<times> int) outcome" where
  "parse_arguments env w =
     (case argv env of
        [] \<Rightarrow> Raised IndexError w
      | [a0] \<Rightarrow> Raised IndexError w
      | a0 # a1 # rest \<Rightarrow>
          (let d = \<lparr>arg_compare_file = getcwd env @ ''/'' @ a1, arg_verbose = None, arg_compare = None,
                     arg_highlowres = None, arg_log_filename = None, arg_filename_list = None\<rparr>
           in if \<not> isfile env (arg_compare_file d) then
                Raised (SystemExit 1) (print_line
                  ''Error: compare file not found, check if file exists or see README.md for syntax'' w)
              else
                (case rest of
                   [] \<Rightarrow> Raised IndexError w
                 | a2 # _ \<Rightarrow>
                     if \<not> isdir env (texture_path_of a2) then
                       Raised (SystemExit 1) (print_line
                         ''Error: path_to_textures is not a valid directory, see README.md for formatting examples'' w)
                     else
                       (case parameters env rest (d\<lparr>arg_verbose := Some False\<rparr>) 0 w of
                          Raised e w' \<Rightarrow> Raised e w'
                        | Returned (d', use_threading) w' \<Rightarrow>
                            if arg_compare d' = None \<and> arg_highlowres d' = None then
                              Raised (SystemExit 1) (print_line
                                (''Error: must provide either '' @ [CHR 0x27] @ ''compare'' @ [CHR 0x27] @ '' or ''
                                 @ [CHR 0x27] @ ''highlowres'' @ [CHR 0x27] @ '' for required argument search_mode.'') w')
                            else if arg_compare d' \<noteq> None \<and> arg_highlowres d' \<noteq> None then
                              Raised (SystemExit 1) (print_line
                                ''Error: more than one argument for search_mode provided, see README.md for more details.'' w')
                            else Returned (d', texture_path_of a2, use_threading) w'))))"

text \<open>Lines 240 to 255: the name of the log file, the list of candidates, the search.\<close>

definition run_search ::
  "'d env \<Rightarrow> argument_dict \<Rightarrow> string \<Rightarrow> int \<Rightarrow> world \<Rightarrow> unit outcome" where
  "run_search env argument_dict texture_path use_threading w =
     (let d = argument_dict\<lparr>arg_log_filename := Some (time_prefix env @ ''_matches.txt'')\<rparr>;
          filename_list = glob env (texture_path @ ''*'');
          w1 = (if length filename_list = 0
                then print_line
                  ''Error: no files in path_to_textures, are you sure you provided the right directory?'' w
                else w)
      in if use_threading \<noteq> 0 then
           (case multithreading_compare filename_list d use_threading w1 of
              Raised e w' \<Rightarrow> Raised e w'
            | Returned d' w' \<Rightarrow> Returned () w')
         else
           (case image_compare_kwargs env (d\<lparr>arg_filename_list := Some filename_list\<rparr>) w1 of
              Raised e w' \<Rightarrow> Raised e w'
            | Returned processed w' \<Rightarrow> Returned () w'))"

definition main :: "'d env \<Rightarrow> world \<Rightarrow> unit outcome" where
  "main env w =
     (case parse_arguments env w of
        Raised e w' \<Rightarrow> Raised e w'
      | Returned (argument_dict, texture_path, use_threading) w' \<Rightarrow>
          run_search env argument_dict texture_path use_threading w')"


subsection \<open>What a run leaves behind\<close>

text \<open>
  The key image when it loads (lines 42 to 57 without the exits), and the lines a scan has
  to write: for each candidate that is loaded and decoded and whose score meets the
  threshold of the mode (the tests of lines 106 and 125), the line of line 110 or 129.
\<close>

definition key_image :: "'d env \<Rightarrow> string \<Rightarrow> image option" where
  "key_image env compare_file =
     (case pil_load env compare_file of Inl e \<Rightarrow> None | Inr key_buf \<Rightarrow> cv_gray env key_buf)"

definition candidate_lines :: "'d env \<Rightarrow> image \<Rightarrow> bool \<Rightarrow> bool \<Rightarrow> string \<Rightarrow> string list" where
  "candidate_lines env key_img compare highlowres file_name =
     (case pil_load env file_name of
        Inl e \<Rightarrow> []
      | Inr tex_buf \<Rightarrow>
          (case cv_gray env tex_buf of
             None \<Rightarrow> []
           | Some tex_img \<Rightarrow>
               if compare then
                 (case bf_match env (sift_descriptors env key_img) (sift_descriptors env tex_img) of
                    None \<Rightarrow> []
                  | Some n \<Rightarrow> if 400 < n then [sift_line file_name n] else [])
               else if highlowres then
                 (if mse key_img tex_img < 1000
                  then [mse_line env file_name (mse key_img tex_img)] else [])
               else []))"

definition match_lines :: "'d env \<Rightarrow> image \<Rightarrow> bool \<Rightarrow> bool \<Rightarrow> string list \<Rightarrow> string list" where
  "match_lines env key_img compare highlowres file_names =
     concat (map (candidate_lines env key_img compare highlowres) file_names)"

definition call_lines :: "'d env \<Rightarrow> string \<Rightarrow> bool \<Rightarrow> bool \<Rightarrow> string list \<Rightarrow> string list" where
  \<comment> \<open>nothing is to be written when the key image does not load\<close>
  "call_lines env compare_file compare highlowres file_names =
     (case key_image env compare_file of
        None \<Rightarrow> []
      | Some key_img \<Rightarrow> match_lines env key_img compare highlowres file_names)"

text \<open>
  \<open>appended log w w' new\<close>: from \<open>w\<close> to \<open>w'\<close> the lines \<open>new\<close> were written to the log
  file and no other file changed; with no line written, the log file is not even created.
  \<open>interrupted log w w' new lines\<close>: of the lines \<open>lines\<close> that were to be written, the
  first ones, \<open>new\<close>, were written when an exception ended the scan; a line was still to
  be written if the log file had only just been opened for it.
\<close>

definition appended :: "string \<Rightarrow> world \<Rightarrow> world \<Rightarrow> string list \<Rightarrow> bool" where
  "appended log_filename w w' new \<longleftrightarrow>
     files w' = (if new = [] then files w else (files w)(log_filename \<mapsto> log_lines w log_filename @ new))"

definition interrupted :: "string \<Rightarrow> world \<Rightarrow> world \<Rightarrow> string list \<Rightarrow> string list \<Rightarrow> bool" where
  "interrupted log_filename w w' new lines \<longleftrightarrow>
     prefix new lines
     \<and> (appended log_filename w w' new
          \<or> (new \<noteq> lines
               \<and> files w' = (files w)(log_filename \<mapsto> log_lines w log_filename @ new)))"

text \<open>
  The contract of the brute-force matcher with cross-check: the matches pair distinct
  descriptors of the one image with distinct descriptors of the other, so there are no
  more matches than descriptors on either side (an image without keypoints has none).
\<close>

definition descriptor_count :: "'d list option \<Rightarrow> nat" where
  "descriptor_count d = (case d of None \<Rightarrow> 0 | Some ds \<Rightarrow> length ds)"

definition cross_check_matcher :: "'d env \<Rightarrow> bool" where
  "cross_check_matcher env \<longleftrightarrow>
     (\<forall>d1 d2 n. bf_match env d1 d2 = Some n \<longrightarrow> n \<le> min (descriptor_count d1) (descriptor_count d2))"

text \<open>
  The specification's wording of a Match Record, \<^verbatim>\<open><candidate_path> <score>\n\<close>, and of
  the number of candidates that were not skipped; both are compared with the program
  below.
\<close>

definition spec_match_record :: "string \<Rightarrow> string \<Rightarrow> string" where
  "spec_match_record candidate_path score = candidate_path @ '' '' @ score @ [CHR 0x0A]"

definition not_skipped_count :: "'d env \<Rightarrow> string list \<Rightarrow> nat" where
  "not_skipped_count env file_names =
     length (filter (\<lambda>f. case pil_load env f of Inl e \<Rightarrow> \<not> skipped e | Inr b \<Rightarrow> True) file_names)"

subsection \<open>A small installation, for concrete runs\<close>

text \<open>
  A uniformly gray 1024 by 1024 image, and a machine on which the key image and the files
  \<open>a.png\<close> to \<open>d.png\<close> of the directory \<open>tex\<close> decode to the black image, \<open>notes.txt\<close> is
  not an image, \<open>sub\<close> is a directory and nothing else exists; the log file can be
  opened and written. \<open>png_bytes\<close> stands for the encoded PNG.
\<close>

definition gray_image :: "8 word \<Rightarrow> image" where
  "gray_image v = \<lparr>shape0 = 1024, shape1 = 1024, pixels = replicate (1024 * 1024) v\<rparr>"

definition png_bytes :: "8 word list" where
  "png_bytes = [0x89, 0x50, 0x4E, 0x47]"

definition tex_files :: "string list" where
  "tex_files = [''tex/a.png'', ''tex/b.png'', ''tex/c.png'', ''tex/d.png'', ''tex/notes.txt'']"

definition example_env :: "nat env" where
  "example_env = \<lparr>
     pil_load = (\<lambda>p. if p = ''/home/u/key.png'' \<or> p \<in> set (butlast tex_files) then Inr png_bytes
                     else if p = ''tex/notes.txt'' then Inl UnidentifiedImageError
                     else if p = ''tex/sub'' then Inl IsADirectoryError
                     else Inl FileNotFoundError),
     cv_gray = (\<lambda>b. Some (gray_image 0)),
     sift_descriptors = (\<lambda>img. None),
     bf_match = (\<lambda>d1 d2. case d1 of None \<Rightarrow> None
                  | Some a \<Rightarrow> (case d2 of None \<Rightarrow> None | Some b \<Rightarrow> Some (min (length a) (length b)))),
     open_append = (\<lambda>name. None),
     write_text = (\<lambda>name line. None),
     str_float = (\<lambda>x. ''0.0''),
     elapsed_text = ''0.0042'',
     argv = [''image_compare.py'', ''key.png'', ''tex'', ''highlowres''],
     getcwd = ''/home/u'',
     isfile = (\<lambda>p. p = ''/home/u/key.png''),
     isdir = (\<lambda>p. p = ''tex/''),
     glob = (\<lambda>pattern. if pattern = ''tex/*'' then tex_files else []),
     py_int = (\<lambda>s. if s = ''2'' then Some 2 else if s = ''3'' then Some 3
                    else if s = ''4'' then Some 4 else None),
     time_prefix = ''11_03_26_15_15_00PM''\<rparr>"

definition empty_dir_env :: "nat env" where
  \<comment> \<open>the same machine with nothing in the directory \<open>tex\<close>\<close>
  "empty_dir_env = example_env\<lparr>glob := (\<lambda>pattern. [])\<rparr>"

definition subdir_env :: "nat env" where
  \<comment> \<open>the same machine with the directory \<open>sub\<close> and one image in the directory \<open>tex\<close>\<close>
  "subdir_env = example_env\<lparr>glob := (\<lambda>pattern. [''tex/sub'', ''tex/a.png''])\<rparr>"

definition readonly_env :: "nat env" where
  \<comment> \<open>the same machine started in a directory that may not be written\<close>
  "readonly_env = example_env\<lparr>open_append := (\<lambda>name. Some PermissionError)\<rparr>"

definition empty_world :: world where
  "empty_world = \<lparr>files = Map.empty, stdout = [], started = [], metric_calls = []\<rparr>"

section \<open>Properties\<close>

lemma squared_error_sym: "squared_error xs ys = squared_error ys xs"
proof -
  have "map (\<lambda>(x, y). (real (unat x) - real (unat y)) ^ 2) (zip xs ys)
      = map (\<lambda>(x, y). (real (unat x) - real (unat y)) ^ 2) (zip ys xs)"
  proof (induction xs arbitrary: ys)
    case Nil
    show ?case by simp
  next
    case (Cons x xs)
    show ?case
    proof (cases ys)
      case Nil
      then show ?thesis by simp
    next
      case (Cons y ys')
      then show ?thesis using Cons.IH [of ys'] by (simp add: power2_commute)
    qed
  qed
  then show ?thesis by (simp add: squared_error_def)
qed

lemma squared_error_self: "squared_error xs xs = 0"
  by (induction xs) (simp_all add: squared_error_def)

lemma mse_self: "mse a a = 0"
  by (simp add: mse_def squared_error_self)

subsection \<open>The mean squared error\<close>

text \<open>
  C9: for normalized images \<open>A\<close> and \<open>B\<close> (equal dimensions), the mean squared error of
  \<open>A\<close> and \<open>B\<close> is that of \<open>B\<close> and \<open>A\<close>, and the mean squared error of \<open>A\<close> and
  \<open>A\<close> is 0.
\<close>

theorem mse_symmetric_and_zero:
  assumes "normalized image_a" and "normalized image_b"
  shows "mse image_a image_b = mse image_b image_a \<and> mse image_a image_a = 0"
proof -
  have "shape0 image_a * shape1 image_a = shape0 image_b * shape1 image_b"
    using assms by (simp add: normalized_def)
  then have "mse image_a image_b = mse image_b image_a"
    by (simp add: mse_def squared_error_sym [of "pixels image_a"])
  then show ?thesis by (simp add: mse_self)
qed

theorem mse_symmetric_and_zero_witness:
  "normalized (gray_image 0) \<and> normalized (gray_image 255)
   \<and> mse (gray_image 0) (gray_image 255) = mse (gray_image 255) (gray_image 0)
   \<and> mse (gray_image 0) (gray_image 0) = 0"
proof -
  have a: "normalized (gray_image 0)" by (simp add: normalized_def gray_image_def)
  have b: "normalized (gray_image 255)" by (simp add: normalized_def gray_image_def)
  show ?thesis using a b mse_symmetric_and_zero [OF a b] by simp
qed

subsection \<open>The work partitioner\<close>

lemma slice_bound_nat: "n \<le> length xs \<Longrightarrow> slice_bound xs (int n) = n"
  by (simp add: slice_bound_def)

lemma share_of_files_pos:
  assumes "0 < W"
  shows "share_of_files xs W = int (length xs div nat W)"
proof -
  have "(int (length xs) - int (length xs) mod W) div W = int (length xs) div W"
    using assms by (metis add_diff_cancel_right' div_mult_mod_eq nonzero_mult_div_cancel_right less_irrefl)
  also have "\<dots> = int (length xs div nat W)"
    using assms by (simp add: zdiv_int)
  finally show ?thesis by (simp add: share_of_files_def)
qed

lemma chunk_inner:
  assumes "1 \<le> i" "i < W"
  shows "chunk xs W i = take (length xs div nat W) (drop (nat (i - 1) * (length xs div nat W)) xs)"
proof -
  define s where "s = length xs div nat W"
  have W: "0 < W" using assms by simp
  have sh: "share_of_files xs W = int s"
    using share_of_files_pos [OF W] by (simp add: s_def)
  have "nat W * s \<le> length xs" by (simp add: s_def)
  moreover have "nat i \<le> nat W" using assms by simp
  ultimately have le: "nat i * s \<le> length xs"
    by (meson le_trans mult_le_mono1)
  have i1: "(i - 1) * int s = int (nat (i - 1) * s)" using assms by simp
  have i2: "i * int s = int (nat i * s)" using assms by simp
  have "nat (i - 1) \<le> nat i" by simp
  then have "nat (i - 1) * s \<le> nat i * s" by (rule mult_le_mono1)
  with le have le1: "nat (i - 1) * s \<le> length xs" by (rule le_trans [rotated])
  have b1: "slice_bound xs ((i - 1) * int s) = nat (i - 1) * s"
    using slice_bound_nat [OF le1] by (simp only: i1)
  have b2: "slice_bound xs (i * int s) = nat i * s"
    using slice_bound_nat [OF le] by (simp only: i2)
  have "nat i = Suc (nat (i - 1))" using assms by simp
  then have d: "nat i * s - nat (i - 1) * s = s" by simp
  show ?thesis
    using assms by (simp add: chunk_def sh py_slice_def b1 b2 d Let_def s_def [symmetric])
qed

lemma chunk_last:
  assumes "0 < W"
  shows "chunk xs W W = drop (nat (W - 1) * (length xs div nat W)) xs"
proof -
  define s where "s = length xs div nat W"
  have sh: "share_of_files xs W = int s"
    using share_of_files_pos [OF assms] by (simp add: s_def)
  have i1: "(W - 1) * int s = int (nat (W - 1) * s)" using assms by simp
  have "nat W * s \<le> length xs" by (simp add: s_def)
  moreover have "nat (W - 1) * s \<le> nat W * s" by (rule mult_le_mono1) simp
  ultimately have le1: "nat (W - 1) * s \<le> length xs" by (rule le_trans [rotated])
  have b1: "slice_bound xs ((W - 1) * int s) = nat (W - 1) * s"
    using slice_bound_nat [OF le1] by (simp only: i1)
  show ?thesis
    by (simp add: chunk_def sh py_slice_from_def b1 Let_def s_def [symmetric])
qed

lemma upto_2: "[1..2::int] = [1, 2]" by (simp add: upto.simps)
lemma upto_3: "[1..3::int] = [1, 2, 3]" by (simp add: upto.simps)
lemma upto_4: "[1..4::int] = [1, 2, 3, 4]" by (simp add: upto.simps)

lemma chunks_2: "filename_list_chunks xs 2 =
  [take (length xs div 2) xs, drop (length xs div 2) xs]"
  using chunk_inner [of 1 2 xs] chunk_last [of 2 xs]
  by (simp add: filename_list_chunks_def upto_2)

lemma chunks_3: "filename_list_chunks xs 3 =
  [take (length xs div 3) xs, take (length xs div 3) (drop (length xs div 3) xs),
   drop (2 * (length xs div 3)) xs]"
  using chunk_inner [of 1 3 xs] chunk_inner [of 2 3 xs] chunk_last [of 3 xs]
  by (simp add: filename_list_chunks_def upto_3)

lemma chunks_4: "filename_list_chunks xs 4 =
  [take (length xs div 4) xs, take (length xs div 4) (drop (length xs div 4) xs),
   take (length xs div 4) (drop (2 * (length xs div 4)) xs),
   drop (3 * (length xs div 4)) xs]"
  using chunk_inner [of 1 4 xs] chunk_inner [of 2 4 xs] chunk_inner [of 3 4 xs] chunk_last [of 4 xs]
  by (simp add: filename_list_chunks_def upto_4)

lemma take_drop_step: "take s (drop k xs) @ drop (s + k) xs = drop k xs"
  using append_take_drop_id [of s "drop k xs"] by simp

text \<open>
  C1: for a worker count of 2, 3 or 4 the partitioner makes that many chunks, their
  concatenation is the list of candidates (each candidate once, in order), each chunk but
  the last has \<open>C div W\<close> elements and the last has \<open>C - (W - 1) * (C div W)\<close>, for
  \<open>C\<close> candidates and \<open>W\<close> workers.
\<close>

theorem work_partitioner_chunks:
  assumes "use_threading \<in> {2, 3, 4}"
  shows "length (filename_list_chunks filename_list use_threading) = nat use_threading
       \<and> concat (filename_list_chunks filename_list use_threading) = filename_list
       \<and> (\<forall>i < nat use_threading - 1.
             length (filename_list_chunks filename_list use_threading ! i)
               = length filename_list div nat use_threading)
       \<and> length (last (filename_list_chunks filename_list use_threading))
           = length filename_list - (nat use_threading - 1) * (length filename_list div nat use_threading)"
proof -
  let ?xs = filename_list
  consider "use_threading = 2" | "use_threading = 3" | "use_threading = 4"
    using assms by auto
  then show ?thesis
  proof cases
    case 1
    define s where "s = length ?xs div 2"
    have le: "2 * s \<le> length ?xs" by (simp add: s_def)
    show ?thesis
      using le by (simp add: 1 chunks_2 s_def [symmetric])
  next
    case 2
    define s where "s = length ?xs div 3"
    have le: "3 * s \<le> length ?xs" by (simp add: s_def)
    have "take s (drop s ?xs) @ drop (2 * s) ?xs = drop s ?xs"
      using take_drop_step [of s s ?xs] by (simp add: mult_2)
    then have c: "take s ?xs @ take s (drop s ?xs) @ drop (2 * s) ?xs = ?xs"
      by simp
    show ?thesis
      using le c by (simp add: 2 chunks_3 s_def [symmetric] less_Suc_eq nth_Cons')
  next
    case 3
    define s where "s = length ?xs div 4"
    have le: "4 * s \<le> length ?xs" by (simp add: s_def)
    have "s + 2 * s = 3 * s" by simp
    then have "take s (drop (2 * s) ?xs) @ drop (3 * s) ?xs = drop (2 * s) ?xs"
      using take_drop_step [of s "2 * s" ?xs] by simp
    moreover have "take s (drop s ?xs) @ drop (2 * s) ?xs = drop s ?xs"
      using take_drop_step [of s s ?xs] by (simp add: mult_2)
    ultimately have c: "take s ?xs @ take s (drop s ?xs) @ take s (drop (2 * s) ?xs) @ drop (3 * s) ?xs = ?xs"
      by simp
    show ?thesis
      using le c by (simp add: 3 chunks_4 s_def [symmetric] less_Suc_eq nth_Cons')
  qed
qed

theorem work_partitioner_chunks_witness:
  "(4::int) \<in> {2, 3, 4}
   \<and> filename_list_chunks [''a'', ''b'', ''c'', ''d'', ''e''] 4 = [[''a''], [''b''], [''c''], [''d'', ''e'']]
   \<and> length (filename_list_chunks [''a'', ''b'', ''c'', ''d'', ''e''] 4) = nat 4
   \<and> concat (filename_list_chunks [''a'', ''b'', ''c'', ''d'', ''e''] 4) = [''a'', ''b'', ''c'', ''d'', ''e'']
   \<and> length (filename_list_chunks [''a'', ''b'', ''c'', ''d'', ''e''] 4 ! 0) = 5 div nat 4
   \<and> length (filename_list_chunks [''a'', ''b'', ''c'', ''d'', ''e''] 4 ! 1) = 5 div nat 4
   \<and> length (filename_list_chunks [''a'', ''b'', ''c'', ''d'', ''e''] 4 ! 2) = 5 div nat 4
   \<and> length (last (filename_list_chunks [''a'', ''b'', ''c'', ''d'', ''e''] 4)) = 5 - (nat 4 - 1) * (5 div nat 4)"
proof -
  have v: "filename_list_chunks [''a'', ''b'', ''c'', ''d'', ''e''] 4 = [[''a''], [''b''], [''c''], [''d'', ''e'']]"
    by (simp add: chunks_4)
  have h: "(4::int) \<in> {2, 3, 4}" by simp
  show ?thesis
    using h v work_partitioner_chunks [OF h, of "[''a'', ''b'', ''c'', ''d'', ''e'']"] by simp
qed

subsection \<open>Basic facts about the world\<close>

lemma files_print_line [simp]: "files (print_line s w) = files w"
  by (simp add: print_line_def)

lemma log_lines_print_line [simp]: "log_lines (print_line s w) name = log_lines w name"
  by (simp add: log_lines_def)

lemma started_print_line [simp]: "started (print_line s w) = started w"
  by (simp add: print_line_def)

lemma metric_calls_print_line [simp]: "metric_calls (print_line s w) = metric_calls w"
  by (simp add: print_line_def)

lemma stdout_print_line [simp]: "stdout (print_line s w) = stdout w @ [s]"
  by (simp add: print_line_def)

lemma log_lines_metric_calls [simp]: "log_lines (w\<lparr>metric_calls := m\<rparr>) name = log_lines w name"
  by (simp add: log_lines_def)

lemma world_after_simps [simp]:
  "world_after (Returned x w) = w" "world_after (Raised e w) = w"
  by (simp_all add: world_after_def)

lemma start_process_simps [simp]:
  "started (start_process d w) = started w @ [d]"
  "files (start_process d w) = files w"
  "stdout (start_process d w) = stdout w"
  "metric_calls (start_process d w) = metric_calls w"
  by (simp_all add: start_process_def)

lemma appended_refl: "appended l w w []"
  by (simp add: appended_def)

lemma appended_log_lines: "appended l w w' new \<Longrightarrow> log_lines w' l = log_lines w l @ new"
  by (simp add: appended_def log_lines_def split: if_splits)

lemma appended_trans:
  assumes "appended l w w1 xs" and "appended l w1 w2 ys"
  shows "appended l w w2 (xs @ ys)"
proof -
  have ll: "log_lines w1 l = log_lines w l @ xs" using assms(1) by (rule appended_log_lines)
  show ?thesis
    using assms ll by (auto simp: appended_def)
qed

lemma load_key_Returned: "load_key env compare_file w = Returned key_img w0 \<Longrightarrow> w0 = w"
  by (auto simp: load_key_def split: sum.splits option.splits if_splits)

lemma load_key_Raised:
  "load_key env compare_file w = Raised e w' \<Longrightarrow>
   files w' = files w \<and> metric_calls w' = metric_calls w \<and> started w' = started w"
  by (auto simp: load_key_def split: sum.splits option.splits if_splits)

lemma files_metric_calls_update [simp]: "files (w\<lparr>metric_calls := m\<rparr>) = files w"
  by simp

lemma appended_files_upd:
  "appended l w w1 xs \<Longrightarrow> (files w1)(l \<mapsto> ys) = (files w)(l \<mapsto> ys)"
  by (auto simp: appended_def split: if_splits)

lemma appended_interrupted:
  assumes "appended l w w1 xs" and "interrupted l w1 w2 new lines"
  shows "interrupted l w w2 (xs @ new) (xs @ lines)"
proof -
  have ll: "log_lines w1 l = log_lines w l @ xs" using assms(1) by (rule appended_log_lines)
  from assms(2) have p: "prefix new lines"
    and d: "appended l w1 w2 new
         \<or> (new \<noteq> lines \<and> files w2 = (files w1)(l \<mapsto> log_lines w1 l @ new))"
    by (simp_all add: interrupted_def)
  from d show ?thesis
  proof
    assume "appended l w1 w2 new"
    with assms(1) have "appended l w w2 (xs @ new)" by (rule appended_trans)
    with p show ?thesis by (simp add: interrupted_def)
  next
    assume "new \<noteq> lines \<and> files w2 = (files w1)(l \<mapsto> log_lines w1 l @ new)"
    then have "xs @ new \<noteq> xs @ lines"
      and "files w2 = (files w)(l \<mapsto> log_lines w l @ xs @ new)"
      using appended_files_upd [OF assms(1)] ll by simp_all
    with p show ?thesis by (simp add: interrupted_def)
  qed
qed

lemma load_key_cases:
  "(case load_key env compare_file w of
      Returned key_img w0 \<Rightarrow> w0 = w \<and> key_image env compare_file = Some key_img
    | Raised e w1 \<Rightarrow> files w1 = files w \<and> metric_calls w1 = metric_calls w \<and> started w1 = started w)"
  by (auto simp: load_key_def key_image_def split: sum.splits option.splits)

subsection \<open>Concrete runs\<close>

text \<open>The small installation, evaluated: what its files are, and what \<open>main\<close> does on it.\<close>

lemma example_pil_load:
  "pil_load example_env ''/home/u/key.png'' = Inr png_bytes"
  "pil_load example_env ''tex/a.png'' = Inr png_bytes"
  "pil_load example_env ''tex/b.png'' = Inr png_bytes"
  "pil_load example_env ''tex/c.png'' = Inr png_bytes"
  "pil_load example_env ''tex/d.png'' = Inr png_bytes"
  "pil_load example_env ''tex/notes.txt'' = Inl UnidentifiedImageError"
  "pil_load example_env ''tex/sub'' = Inl IsADirectoryError"
  "pil_load example_env ''tex/gone.png'' = Inl FileNotFoundError"
  by (simp_all add: example_env_def tex_files_def)

lemma example_env_simps:
  "cv_gray example_env = (\<lambda>b. Some (gray_image 0))"
  "sift_descriptors example_env = (\<lambda>img. None)"
  "open_append example_env = (\<lambda>name. None)"
  "write_text example_env = (\<lambda>name line. None)"
  "str_float example_env = (\<lambda>x. ''0.0'')"
  "elapsed_text example_env = ''0.0042''"
  "argv example_env = [''image_compare.py'', ''key.png'', ''tex'', ''highlowres'']"
  "getcwd example_env = ''/home/u''"
  "isfile example_env = (\<lambda>p. p = ''/home/u/key.png'')"
  "isdir example_env = (\<lambda>p. p = ''tex/'')"
  "glob example_env = (\<lambda>pattern. if pattern = ''tex/*'' then tex_files else [])"
  "time_prefix example_env = ''11_03_26_15_15_00PM''"
  by (simp_all add: example_env_def)

lemma variant_env_simps:
  "pil_load empty_dir_env = pil_load example_env" "cv_gray empty_dir_env = cv_gray example_env"
  "time_prefix empty_dir_env = time_prefix example_env" "glob empty_dir_env = (\<lambda>pattern. [])"
  "pil_load subdir_env = pil_load example_env" "cv_gray subdir_env = cv_gray example_env"
  "glob subdir_env = (\<lambda>pattern. [''tex/sub'', ''tex/a.png''])"
  "pil_load readonly_env = pil_load example_env" "cv_gray readonly_env = cv_gray example_env"
  "glob readonly_env = glob example_env" "time_prefix readonly_env = time_prefix example_env"
  "str_float readonly_env = str_float example_env"
  "open_append readonly_env = (\<lambda>name. Some PermissionError)"
  by (simp_all add: empty_dir_env_def subdir_env_def readonly_env_def)

lemma str_nat_digits:
  "str_nat 0 = ''0''" "str_nat 1 = ''1''" "str_nat (Suc 0) = ''1''" "str_nat 2 = ''2''"
  "str_nat 4 = ''4''" "str_nat 5 = ''5''"
  by (simp_all add: str_nat.simps digit_char_def)

lemma ev_load_key:
  assumes "pil_load env = pil_load example_env" and "cv_gray env = cv_gray example_env"
  shows "load_key env ''/home/u/key.png'' w = Returned (gray_image 0) w"
  by (simp add: load_key_def assms example_env_simps example_pil_load)


lemma ev_parse:
  assumes "argv env = argv example_env" and "getcwd env = getcwd example_env"
    and "isfile env = isfile example_env" and "isdir env = isdir example_env"
  shows "parse_arguments env w =
     Returned (\<lparr>arg_compare_file = ''/home/u/key.png'', arg_verbose = Some False, arg_compare = None,
                arg_highlowres = Some True, arg_log_filename = None, arg_filename_list = None\<rparr>,
               ''tex/'', 0) w"
  by (simp add: parse_arguments_def assms example_env_simps texture_path_of_def Let_def)

lemma ev_parse_variants:
  "parse_arguments example_env w =
     Returned (\<lparr>arg_compare_file = ''/home/u/key.png'', arg_verbose = Some False, arg_compare = None,
                arg_highlowres = Some True, arg_log_filename = None, arg_filename_list = None\<rparr>,
               ''tex/'', 0) w"
  "parse_arguments empty_dir_env w =
     Returned (\<lparr>arg_compare_file = ''/home/u/key.png'', arg_verbose = Some False, arg_compare = None,
                arg_highlowres = Some True, arg_log_filename = None, arg_filename_list = None\<rparr>,
               ''tex/'', 0) w"
  "parse_arguments subdir_env w =
     Returned (\<lparr>arg_compare_file = ''/home/u/key.png'', arg_verbose = Some False, arg_compare = None,
                arg_highlowres = Some True, arg_log_filename = None, arg_filename_list = None\<rparr>,
               ''tex/'', 0) w"
  "parse_arguments readonly_env w =
     Returned (\<lparr>arg_compare_file = ''/home/u/key.png'', arg_verbose = Some False, arg_compare = None,
                arg_highlowres = Some True, arg_log_filename = None, arg_filename_list = None\<rparr>,
               ''tex/'', 0) w"
  by (rule ev_parse; simp add: empty_dir_env_def subdir_env_def readonly_env_def)+

lemma ev_run_example:
  "run_search example_env
     \<lparr>arg_compare_file = ''/home/u/key.png'', arg_verbose = Some False, arg_compare = None,
       arg_highlowres = Some True, arg_log_filename = None, arg_filename_list = None\<rparr>
     ''tex/'' 0 empty_world
     = Returned () (empty_world\<lparr>
         files := [''11_03_26_15_15_00PM_matches.txt'' \<mapsto>
           [''tex/a.png 0.0 '' @ [CHR 0x0A], ''tex/b.png 0.0 '' @ [CHR 0x0A],
            ''tex/c.png 0.0 '' @ [CHR 0x0A], ''tex/d.png 0.0 '' @ [CHR 0x0A]]],
         metric_calls := [(''tex/a.png'', MSE), (''tex/b.png'', MSE), (''tex/c.png'', MSE), (''tex/d.png'', MSE)]\<rparr>)"
  by (simp add: run_search_def image_compare_kwargs_def image_compare_def ev_load_key flag_def
        example_env_simps tex_files_def compare_candidate_def example_pil_load skipped_def mse_self
        log_match_def log_lines_def mse_line_def Let_def print_line_def empty_world_def)

lemma ev_main_example:
  "main example_env empty_world
     = Returned () (empty_world\<lparr>
         files := [''11_03_26_15_15_00PM_matches.txt'' \<mapsto>
           [''tex/a.png 0.0 '' @ [CHR 0x0A], ''tex/b.png 0.0 '' @ [CHR 0x0A],
            ''tex/c.png 0.0 '' @ [CHR 0x0A], ''tex/d.png 0.0 '' @ [CHR 0x0A]]],
         metric_calls := [(''tex/a.png'', MSE), (''tex/b.png'', MSE), (''tex/c.png'', MSE), (''tex/d.png'', MSE)]\<rparr>)"
  by (simp add: main_def ev_parse_variants ev_run_example)


subsection \<open>The lines a scan writes\<close>

lemma log_match_cases:
  "(case log_match env log_filename verbose line w of
      Returned u w' \<Rightarrow>
        files w' = (files w)(log_filename \<mapsto> log_lines w log_filename @ [line])
        \<and> log_filename \<noteq> [] \<and> open_append env log_filename = None
        \<and> write_text env log_filename line = None
    | Raised e w' \<Rightarrow>
        files w' = files w \<or> files w' = (files w)(log_filename \<mapsto> log_lines w log_filename))"
  by (simp add: log_match_def log_lines_def Let_def split: option.splits)

lemma compare_candidate_lines:
  "(case compare_candidate env key_img log_filename verbose compare highlowres file_name w of
      Returned u w' \<Rightarrow>
        appended log_filename w w' (candidate_lines env key_img compare highlowres file_name)
    | Raised e w' \<Rightarrow>
        interrupted log_filename w w' [] (candidate_lines env key_img compare highlowres file_name))"
proof (cases "pil_load env file_name")
  case (Inl e)
  then show ?thesis
    by (simp add: compare_candidate_def candidate_lines_def appended_def interrupted_def)
next
  case (Inr tex_buf)
  show ?thesis
  proof (cases "cv_gray env tex_buf")
    case None
    with Inr show ?thesis
      by (simp add: compare_candidate_def candidate_lines_def appended_def interrupted_def)
  next
    case (Some tex_img)
    show ?thesis
    proof (cases compare)
      case True
      show ?thesis
      proof (cases "bf_match env (sift_descriptors env key_img) (sift_descriptors env tex_img)")
        case None
        with Inr Some True show ?thesis
          by (simp add: compare_candidate_def candidate_lines_def appended_def)
      next
        case m: (Some n)
        show ?thesis
        proof (cases "400 < n")
          case False
          with Inr Some True m show ?thesis
            by (simp add: compare_candidate_def candidate_lines_def appended_def Let_def)
        next
          case yes: True
          let ?w1 = "w\<lparr>metric_calls := metric_calls w @ [(file_name, SIFT)]\<rparr>"
          have c: "candidate_lines env key_img compare highlowres file_name = [sift_line file_name n]"
            using Inr Some True m yes by (simp add: candidate_lines_def)
          have cc: "compare_candidate env key_img log_filename verbose compare highlowres file_name w =
            (case log_match env log_filename verbose (sift_line file_name n) ?w1 of
               Raised e w2 \<Rightarrow> Raised e w2
             | Returned u w2 \<Rightarrow> Returned () (if verbose then print_line (''SIFT: '' @ str_nat n) w2 else w2))"
            using Inr Some True m yes by (simp add: compare_candidate_def Let_def)
          show ?thesis
            using log_match_cases [where env = env and log_filename = log_filename and verbose = verbose
                and line = "sift_line file_name n" and w = ?w1]
            by (auto simp: cc c appended_def interrupted_def split: outcome.splits)
        qed
      qed
    next
      case False
      show ?thesis
      proof (cases "highlowres \<and> mse key_img tex_img < 1000")
        case no: False
        with Inr Some False show ?thesis
          by (auto simp: compare_candidate_def candidate_lines_def appended_def Let_def)
      next
        case yes: True
        let ?w1 = "w\<lparr>metric_calls := metric_calls w @ [(file_name, MSE)]\<rparr>"
        let ?w2 = "if verbose then print_line (''MSE: '' @ str_float env (mse key_img tex_img)) ?w1 else ?w1"
        let ?line = "mse_line env file_name (mse key_img tex_img)"
        have c: "candidate_lines env key_img compare highlowres file_name = [?line]"
          using Inr Some False yes by (simp add: candidate_lines_def)
        have cc: "compare_candidate env key_img log_filename verbose compare highlowres file_name w =
            log_match env log_filename verbose ?line ?w2"
          using Inr Some False yes by (simp add: compare_candidate_def Let_def)
        have f2: "files ?w2 = files w" and l2: "log_lines ?w2 log_filename = log_lines w log_filename"
          by simp_all
        show ?thesis
          using log_match_cases [where env = env and log_filename = log_filename and verbose = verbose
              and line = ?line and w = ?w2]
          unfolding cc c f2 l2
          by (auto simp: appended_def interrupted_def split: outcome.splits)
      qed
    qed
  qed
qed

lemma scan_lines:
  "(case scan env key_img log_filename verbose compare highlowres file_names processed w of
      Returned processed' w' \<Rightarrow>
        appended log_filename w w' (match_lines env key_img compare highlowres file_names)
    | Raised e w' \<Rightarrow>
        (\<exists>new. interrupted log_filename w w' new
                 (match_lines env key_img compare highlowres file_names)))"
proof (induction file_names arbitrary: processed w)
  case Nil
  show ?case by (simp add: match_lines_def appended_def)
next
  case (Cons f rest)
  let ?cl = "candidate_lines env key_img compare highlowres f"
  let ?ml = "match_lines env key_img compare highlowres rest"
  have ml: "match_lines env key_img compare highlowres (f # rest) = ?cl @ ?ml"
    by (simp add: match_lines_def)
  show ?case
  proof (cases "compare_candidate env key_img log_filename verbose compare highlowres f w")
    case (Raised e w1)
    with compare_candidate_lines [where env = env and key_img = key_img and log_filename = log_filename
        and verbose = verbose and compare = compare and highlowres = highlowres and file_name = f and w = w]
    have "interrupted log_filename w w1 [] ?cl" by simp
    then have "interrupted log_filename w w1 [] (?cl @ ?ml)"
      by (auto simp: interrupted_def)
    with Raised show ?thesis by (auto simp: ml)
  next
    case (Returned u w1)
    with compare_candidate_lines [where env = env and key_img = key_img and log_filename = log_filename
        and verbose = verbose and compare = compare and highlowres = highlowres and file_name = f and w = w]
    have a1: "appended log_filename w w1 ?cl" by simp
    show ?thesis
    proof (cases "scan env key_img log_filename verbose compare highlowres rest (processed + 1) w1")
      case r: (Returned p' w')
      with Cons.IH [where processed = "processed + 1" and w = w1]
      have "appended log_filename w1 w' ?ml" by simp
      with a1 have "appended log_filename w w' (?cl @ ?ml)" by (rule appended_trans)
      with Returned r show ?thesis by (simp add: ml)
    next
      case r: (Raised e w')
      with Cons.IH [where processed = "processed + 1" and w = w1] obtain new where
        n: "interrupted log_filename w1 w' new ?ml" by auto
      from a1 n have "interrupted log_filename w w' (?cl @ new) (?cl @ ?ml)"
        by (rule appended_interrupted)
      with Returned r show ?thesis by (auto simp: ml)
    qed
  qed
qed

lemma image_compare_lines:
  "(case image_compare env (Some file_names) compare_file log_filename verbose compare highlowres w of
      Returned processed w' \<Rightarrow>
        key_image env compare_file \<noteq> None
        \<and> appended log_filename w w' (call_lines env compare_file compare highlowres file_names)
    | Raised e w' \<Rightarrow>
        (\<exists>new. interrupted log_filename w w' new
                 (call_lines env compare_file compare highlowres file_names)))"
proof (cases "load_key env compare_file w")
  case (Raised e w1)
  with load_key_cases [where env = env and compare_file = compare_file and w = w]
  have "files w1 = files w" by simp
  then have "interrupted log_filename w w1 [] (call_lines env compare_file compare highlowres file_names)"
    by (simp add: interrupted_def appended_def)
  with Raised show ?thesis by (auto simp: image_compare_def)
next
  case (Returned key_img w0)
  with load_key_cases [where env = env and compare_file = compare_file and w = w]
  have w0: "w0 = w" and k: "key_image env compare_file = Some key_img" by simp_all
  have cl: "call_lines env compare_file compare highlowres file_names
      = match_lines env key_img compare highlowres file_names"
    by (simp add: call_lines_def k)
  show ?thesis
  proof (cases "scan env key_img log_filename verbose compare highlowres file_names 0 w")
    case s: (Returned processed w')
    with scan_lines [where env = env and key_img = key_img and log_filename = log_filename
        and verbose = verbose and compare = compare and highlowres = highlowres
        and file_names = file_names and processed = 0 and w = w]
    have "appended log_filename w w' (match_lines env key_img compare highlowres file_names)" by simp
    then show ?thesis
      using Returned w0 s k by (simp add: image_compare_def cl appended_def)
  next
    case s: (Raised e w')
    with scan_lines [where env = env and key_img = key_img and log_filename = log_filename
        and verbose = verbose and compare = compare and highlowres = highlowres
        and file_names = file_names and processed = 0 and w = w]
    have "\<exists>new. interrupted log_filename w w' new (match_lines env key_img compare highlowres file_names)"
      by simp
    then show ?thesis
      using Returned w0 s by (simp add: image_compare_def cl)
  qed
qed

lemma candidate_lines_form:
  assumes "x \<in> set (candidate_lines env key_img compare highlowres f)"
  shows "(compare \<and> (\<exists>n. 400 < n \<and> x = f @ ''  SIFT Matches:'' @ str_nat n @ [CHR 0x0A]))
       \<or> (\<not> compare \<and> highlowres
            \<and> (\<exists>m. m < 1000 \<and> x = f @ '' '' @ str_float env m @ '' '' @ [CHR 0x0A]))"
  using assms
  by (auto simp: candidate_lines_def sift_line_def mse_line_def
        split: sum.splits option.splits if_splits)

lemma call_lines_form:
  assumes "x \<in> set (call_lines env compare_file compare highlowres file_names)"
  shows "\<exists>f \<in> set file_names.
       (compare \<and> (\<exists>n. 400 < n \<and> x = f @ ''  SIFT Matches:'' @ str_nat n @ [CHR 0x0A]))
       \<or> (\<not> compare \<and> highlowres
            \<and> (\<exists>m. m < 1000 \<and> x = f @ '' '' @ str_float env m @ '' '' @ [CHR 0x0A]))"
proof -
  from assms obtain key_img f where "f \<in> set file_names"
    and "x \<in> set (candidate_lines env key_img compare highlowres f)"
    by (auto simp: call_lines_def match_lines_def split: option.splits)
  then show ?thesis using candidate_lines_form [where x = x and env = env and key_img = key_img and compare = compare and highlowres = highlowres and f = f] by blast
qed



lemma scan_processed:
  "scan env key_img log_filename verbose compare highlowres file_names processed w = Returned processed' w'
   \<Longrightarrow> processed' = processed + length file_names"
proof (induction file_names arbitrary: processed w)
  case Nil
  then show ?case by simp
next
  case (Cons f rest)
  from Cons.prems obtain w1 where
    "scan env key_img log_filename verbose compare highlowres rest (processed + 1) w1 = Returned processed' w'"
    by (auto split: outcome.splits)
  from Cons.IH [OF this] show ?case by simp
qed


subsection \<open>Duplicate detection\<close>

text \<open>
  C2, as the program has it: in highlowres mode (\<open>compare\<close> false, \<open>highlowres\<close> true), for a
  candidate that was loaded and decoded: when its mean squared error against the key is
  1000 or more, no line is written and the scan goes on; when it is below 1000 and the
  log file can be opened and written, exactly one line is appended and the scan goes on;
  when it is below 1000 and the log file cannot be opened or written, the exception ends
  the scan and no line is appended.
\<close>

theorem duplicate_detection_threshold:
  assumes "pil_load env file_name = Inr tex_buf"
    and "cv_gray env tex_buf = Some tex_img"
  shows "(1000 \<le> mse key_img tex_img \<longrightarrow>
           (\<exists>w'. compare_candidate env key_img log_filename verbose False True file_name w = Returned () w'
              \<and> scan env key_img log_filename verbose False True (file_name # rest) processed w
                  = scan env key_img log_filename verbose False True rest (processed + 1) w'
              \<and> files w' = files w))
      \<and> (mse key_img tex_img < 1000 \<and> log_filename \<noteq> [] \<and> open_append env log_filename = None
          \<and> write_text env log_filename
               (file_name @ '' '' @ str_float env (mse key_img tex_img) @ '' '' @ [CHR 0x0A]) = None \<longrightarrow>
           (\<exists>w'. compare_candidate env key_img log_filename verbose False True file_name w = Returned () w'
              \<and> scan env key_img log_filename verbose False True (file_name # rest) processed w
                  = scan env key_img log_filename verbose False True rest (processed + 1) w'
              \<and> files w' = (files w)(log_filename \<mapsto>
                   log_lines w log_filename
                   @ [file_name @ '' '' @ str_float env (mse key_img tex_img) @ '' '' @ [CHR 0x0A]])))
      \<and> (mse key_img tex_img < 1000
          \<and> (log_filename = [] \<or> open_append env log_filename \<noteq> None
              \<or> write_text env log_filename
                   (file_name @ '' '' @ str_float env (mse key_img tex_img) @ '' '' @ [CHR 0x0A]) \<noteq> None) \<longrightarrow>
           (\<exists>e w'. compare_candidate env key_img log_filename verbose False True file_name w = Raised e w'
              \<and> scan env key_img log_filename verbose False True (file_name # rest) processed w = Raised e w'
              \<and> log_lines w' log_filename = log_lines w log_filename))"
proof (intro conjI impI)
  assume "1000 \<le> mse key_img tex_img"
  then show "\<exists>w'. compare_candidate env key_img log_filename verbose False True file_name w = Returned () w'
              \<and> scan env key_img log_filename verbose False True (file_name # rest) processed w
                  = scan env key_img log_filename verbose False True rest (processed + 1) w'
              \<and> files w' = files w"
    using assms by (simp add: compare_candidate_def Let_def)
next
  assume "mse key_img tex_img < 1000 \<and> log_filename \<noteq> [] \<and> open_append env log_filename = None
          \<and> write_text env log_filename
               (file_name @ '' '' @ str_float env (mse key_img tex_img) @ '' '' @ [CHR 0x0A]) = None"
  then show "\<exists>w'. compare_candidate env key_img log_filename verbose False True file_name w = Returned () w'
              \<and> scan env key_img log_filename verbose False True (file_name # rest) processed w
                  = scan env key_img log_filename verbose False True rest (processed + 1) w'
              \<and> files w' = (files w)(log_filename \<mapsto>
                   log_lines w log_filename
                   @ [file_name @ '' '' @ str_float env (mse key_img tex_img) @ '' '' @ [CHR 0x0A]])"
    using assms by (simp add: compare_candidate_def log_match_def Let_def mse_line_def log_lines_def)
next
  assume a: "mse key_img tex_img < 1000
          \<and> (log_filename = [] \<or> open_append env log_filename \<noteq> None
              \<or> write_text env log_filename
                   (file_name @ '' '' @ str_float env (mse key_img tex_img) @ '' '' @ [CHR 0x0A]) \<noteq> None)"
  show "\<exists>e w'. compare_candidate env key_img log_filename verbose False True file_name w = Raised e w'
              \<and> scan env key_img log_filename verbose False True (file_name # rest) processed w = Raised e w'
              \<and> log_lines w' log_filename = log_lines w log_filename"
  proof (cases "log_filename = []")
    case True
    with a assms show ?thesis
      by (simp add: compare_candidate_def log_match_def Let_def)
  next
    case ne: False
    show ?thesis
    proof (cases "open_append env log_filename")
      case (Some e)
      with a ne assms show ?thesis
        by (simp add: compare_candidate_def log_match_def Let_def)
    next
      case None
      with a ne obtain e where "write_text env log_filename
          (file_name @ '' '' @ str_float env (mse key_img tex_img) @ '' '' @ [CHR 0x0A]) = Some e"
        by auto
      with a ne None assms show ?thesis
        by (simp add: compare_candidate_def log_match_def Let_def mse_line_def log_lines_def)
    qed
  qed
qed

theorem duplicate_detection_threshold_witness:
  "pil_load example_env ''tex/a.png'' = Inr png_bytes
   \<and> cv_gray example_env png_bytes = Some (gray_image 0)
   \<and> mse (gray_image 0) (gray_image 0) < 1000
   \<and> ''log.txt'' \<noteq> []
   \<and> open_append example_env ''log.txt'' = None
   \<and> write_text example_env ''log.txt''
        (''tex/a.png'' @ '' '' @ str_float example_env (mse (gray_image 0) (gray_image 0)) @ '' '' @ [CHR 0x0A])
       = None
   \<and> (\<exists>w'. compare_candidate example_env (gray_image 0) ''log.txt'' False False True ''tex/a.png'' empty_world
               = Returned () w'
          \<and> files w' ''log.txt'' = Some [''tex/a.png 0.0 '' @ [CHR 0x0A]])"
proof -
  have h1: "pil_load example_env ''tex/a.png'' = Inr png_bytes"
    by (simp add: example_pil_load)
  have h2: "cv_gray example_env png_bytes = Some (gray_image 0)"
    by (simp add: example_env_simps)
  have m: "mse (gray_image 0) (gray_image 0) < 1000" by (simp add: mse_self)
  have h3: "''log.txt'' \<noteq> []" by simp
  have h4: "open_append example_env ''log.txt'' = None" by (simp add: example_env_simps)
  have h5: "write_text example_env ''log.txt''
        (''tex/a.png'' @ '' '' @ str_float example_env (mse (gray_image 0) (gray_image 0)) @ '' '' @ [CHR 0x0A])
       = None"
    by (simp add: example_env_simps)
  from duplicate_detection_threshold [OF h1 h2, where key_img = "gray_image 0" and verbose = False
      and log_filename = "''log.txt''" and w = empty_world and rest = "[]" and processed = 0]
    m h3 h4 h5
  obtain w' where
    c: "compare_candidate example_env (gray_image 0) ''log.txt'' False False True ''tex/a.png'' empty_world
          = Returned () w'"
    and f: "files w' = (files empty_world)(''log.txt'' \<mapsto> log_lines empty_world ''log.txt'' @
          [''tex/a.png'' @ '' '' @ str_float example_env (mse (gray_image 0) (gray_image 0)) @ '' '' @ [CHR 0x0A]])"
    by blast
  from f have "files w' ''log.txt'' = Some [''tex/a.png 0.0 '' @ [CHR 0x0A]]"
    by (simp add: example_env_simps empty_world_def log_lines_def)
  with c h1 h2 h3 h4 h5 m show ?thesis by blast
qed

text \<open>
  The run of \<open>main\<close> in a directory that may not be written: \<open>a.png\<close> is decoded and its
  mean squared error is below 1000, but opening the log file raises, the run ends and no
  line was appended.
\<close>

theorem duplicate_detection_counterexample:
  "pil_load readonly_env ''tex/a.png'' = Inr png_bytes
   \<and> cv_gray readonly_env png_bytes = Some (gray_image 0)
   \<and> mse (gray_image 0) (gray_image 0) < 1000
   \<and> main readonly_env empty_world
       = Raised PermissionError (empty_world\<lparr>metric_calls := [(''tex/a.png'', MSE)]\<rparr>)
   \<and> log_lines (world_after (main readonly_env empty_world)) ''11_03_26_15_15_00PM_matches.txt'' = []"
proof -
  have k: "load_key readonly_env ''/home/u/key.png'' w = Returned (gray_image 0) w" for w
    by (rule ev_load_key) (simp_all add: variant_env_simps)
  have r: "main readonly_env empty_world
       = Raised PermissionError (empty_world\<lparr>metric_calls := [(''tex/a.png'', MSE)]\<rparr>)"
    by (simp add: main_def ev_parse_variants run_search_def image_compare_kwargs_def image_compare_def k
          flag_def variant_env_simps example_env_simps tex_files_def compare_candidate_def example_pil_load
          mse_self log_match_def Let_def empty_world_def)
  show ?thesis
    unfolding r
    by (simp add: variant_env_simps example_pil_load example_env_simps mse_self log_lines_def
          empty_world_def)
qed

subsection \<open>Unreadable candidates\<close>




subsection \<open>Structural similarity\<close>

text \<open>
  C4: in compare mode, when either image has too few descriptors to reach the threshold
  of 400 matches (none at all included), or the matcher raises \<^verbatim>\<open>cv2.error\<close>, no line is
  written for the candidate and the scan goes on with the next candidate.
\<close>

theorem structural_failure_is_no_match:
  assumes "cross_check_matcher env"
    and "pil_load env file_name = Inr tex_buf"
    and "cv_gray env tex_buf = Some tex_img"
    and "descriptor_count (sift_descriptors env key_img) \<le> 400
         \<or> descriptor_count (sift_descriptors env tex_img) \<le> 400
         \<or> bf_match env (sift_descriptors env key_img) (sift_descriptors env tex_img) = None"
  shows "\<exists>w'. compare_candidate env key_img log_filename verbose True highlowres file_name w = Returned () w'
      \<and> files w' = files w
      \<and> scan env key_img log_filename verbose True highlowres (file_name # rest) processed w
          = scan env key_img log_filename verbose True highlowres rest (processed + 1) w'"
proof (cases "bf_match env (sift_descriptors env key_img) (sift_descriptors env tex_img)")
  case None
  then show ?thesis
    using assms(2,3) by (simp add: compare_candidate_def Let_def)
next
  case (Some n)
  then have "n \<le> min (descriptor_count (sift_descriptors env key_img)) (descriptor_count (sift_descriptors env tex_img))"
    using assms(1) by (simp add: cross_check_matcher_def)
  with assms(4) Some have "\<not> 400 < n" by auto
  then show ?thesis
    using assms(2,3) Some by (simp add: compare_candidate_def Let_def)
qed

theorem structural_failure_is_no_match_witness:
  "cross_check_matcher example_env
   \<and> pil_load example_env ''tex/a.png'' = Inr png_bytes
   \<and> cv_gray example_env png_bytes = Some (gray_image 0)
   \<and> descriptor_count (sift_descriptors example_env (gray_image 0)) \<le> 400
   \<and> (\<exists>w'. compare_candidate example_env (gray_image 0) ''log.txt'' False True False ''tex/a.png'' empty_world
               = Returned () w'
          \<and> files w' = files empty_world
          \<and> scan example_env (gray_image 0) ''log.txt'' False True False [''tex/a.png''] 0 empty_world
              = scan example_env (gray_image 0) ''log.txt'' False True False [] (0 + 1) w')"
proof -
  have h0: "cross_check_matcher example_env"
    by (auto simp: cross_check_matcher_def example_env_def descriptor_count_def split: option.splits)
  have h1: "pil_load example_env ''tex/a.png'' = Inr png_bytes"
    by (simp add: example_pil_load)
  have h2: "cv_gray example_env png_bytes = Some (gray_image 0)"
    by (simp add: example_env_simps)
  have h3: "descriptor_count (sift_descriptors example_env (gray_image 0)) \<le> 400"
    by (simp add: example_env_simps descriptor_count_def)
  have h4: "descriptor_count (sift_descriptors example_env (gray_image 0)) \<le> 400
         \<or> descriptor_count (sift_descriptors example_env (gray_image 0)) \<le> 400
         \<or> bf_match example_env (sift_descriptors example_env (gray_image 0))
              (sift_descriptors example_env (gray_image 0)) = None"
    using h3 by simp
  from structural_failure_is_no_match [OF h0 h1 h2 h4, where log_filename = "''log.txt''" and verbose = False
      and highlowres = False and w = empty_world and rest = "[]" and processed = 0]
  show ?thesis using h0 h1 h2 h3 by blast
qed

subsection \<open>The processed count\<close>

text \<open>
  C7, as the program has it: the count is incremented before the candidate is loaded, so
  a scan that returns has counted every candidate of its list, the skipped ones too, and
  the verbose summary ends with that count.
\<close>

theorem processed_counts_every_candidate:
  assumes "image_compare env (Some file_names) compare_file log_filename verbose compare highlowres w
             = Returned processed w'"
  shows "processed = length file_names
      \<and> (verbose \<longrightarrow> stdout w' \<noteq> []
            \<and> last (stdout w') = ''Processed '' @ str_nat (length file_names) @ '' files'')"
proof -
  from assms obtain key_img w0 w1 where
    s: "scan env key_img log_filename verbose compare highlowres file_names 0 w0 = Returned processed w1"
    and w': "w' = (if verbose
                   then print_line (''Processed '' @ str_nat processed @ '' files'')
                          (print_line (''Ran in '' @ elapsed_text env @ '' seconds'') w1)
                   else w1)"
    by (auto simp: image_compare_def split: outcome.splits)
  from scan_processed [OF s] have p: "processed = length file_names" by simp
  show ?thesis using p w' by simp
qed

theorem processed_counts_every_candidate_witness:
  "image_compare example_env (Some [''tex/gone.png'']) ''/home/u/key.png'' ''log.txt'' True False True empty_world
     = Returned 1 (empty_world\<lparr>stdout := [''Ran in 0.0042 seconds'', ''Processed 1 files'']\<rparr>)
   \<and> (1::nat) = length [''tex/gone.png'']
   \<and> last (stdout (empty_world\<lparr>stdout := [''Ran in 0.0042 seconds'', ''Processed 1 files'']\<rparr>))
       = ''Processed '' @ str_nat (length [''tex/gone.png'']) @ '' files''"
proof -
  have h: "image_compare example_env (Some [''tex/gone.png'']) ''/home/u/key.png'' ''log.txt'' True False True empty_world
     = Returned 1 (empty_world\<lparr>stdout := [''Ran in 0.0042 seconds'', ''Processed 1 files'']\<rparr>)"
    by (simp add: image_compare_def ev_load_key [OF refl refl] compare_candidate_def example_pil_load skipped_def
        print_line_def empty_world_def str_nat_digits example_env_simps)
  from processed_counts_every_candidate [OF h] h show ?thesis by simp
qed

text \<open>
  The count of a scan of one missing file is 1, and no candidate of it was not skipped.
\<close>

theorem processed_count_counterexample:
  "image_compare example_env (Some [''tex/gone.png'']) ''/home/u/key.png'' ''log.txt'' True False True empty_world
     = Returned 1 (empty_world\<lparr>stdout := [''Ran in 0.0042 seconds'', ''Processed 1 files'']\<rparr>)
   \<and> not_skipped_count example_env [''tex/gone.png''] = 0"
  by (simp add: image_compare_def ev_load_key [OF refl refl] compare_candidate_def example_pil_load skipped_def
        not_skipped_count_def print_line_def empty_world_def str_nat_digits example_env_simps)

subsection \<open>The log file\<close>

text \<open>
  C5, as the program has it: every line a scan writes belongs to one of its candidates and
  is the candidate's path, two spaces, \<open>SIFT Matches:\<close> and the number of matches, and a
  newline (compare mode), or the path, a space, the mean squared error, a space and a
  newline (highlowres mode). The lines \<open>new\<close> are all that is added to the log file, and
  no other file changes.
\<close>

theorem match_record_lines:
  "\<exists>new. ((new = []
             \<and> files (world_after (image_compare env (Some file_names) compare_file log_filename verbose
                        compare highlowres w)) = files w)
          \<or> files (world_after (image_compare env (Some file_names) compare_file log_filename verbose
                      compare highlowres w))
              = (files w)(log_filename \<mapsto> log_lines w log_filename @ new))
      \<and> (\<forall>processed w'.
            image_compare env (Some file_names) compare_file log_filename verbose compare highlowres w
              = Returned processed w' \<longrightarrow>
            files w' = (if new = [] then files w
                        else (files w)(log_filename \<mapsto> log_lines w log_filename @ new)))
      \<and> (\<forall>x \<in> set new. \<exists>f \<in> set file_names.
            (compare \<and> (\<exists>n. 400 < n \<and> x = f @ ''  SIFT Matches:'' @ str_nat n @ [CHR 0x0A]))
            \<or> (\<not> compare \<and> highlowres
                 \<and> (\<exists>m. m < 1000 \<and> x = f @ '' '' @ str_float env m @ '' '' @ [CHR 0x0A])))"
proof (cases "image_compare env (Some file_names) compare_file log_filename verbose compare highlowres w")
  case (Returned processed w')
  let ?new = "call_lines env compare_file compare highlowres file_names"
  from Returned image_compare_lines [where env = env and file_names = file_names and compare_file = compare_file
      and log_filename = log_filename and verbose = verbose and compare = compare and highlowres = highlowres
      and w = w]
  have a: "appended log_filename w w' ?new" by simp
  show ?thesis
    using a Returned call_lines_form [where env = env and compare_file = compare_file and compare = compare
      and highlowres = highlowres and file_names = file_names]
    by (intro exI [of _ ?new]) (auto simp: appended_def)
next
  case (Raised e w')
  from Raised image_compare_lines [where env = env and file_names = file_names and compare_file = compare_file
      and log_filename = log_filename and verbose = verbose and compare = compare and highlowres = highlowres
      and w = w]
  obtain new where i: "interrupted log_filename w w' new
      (call_lines env compare_file compare highlowres file_names)" by auto
  then have n: "prefix new (call_lines env compare_file compare highlowres file_names)"
    "(new = [] \<and> files w' = files w)
     \<or> files w' = (files w)(log_filename \<mapsto> log_lines w log_filename @ new)"
    by (auto simp: interrupted_def appended_def split: if_splits)
  from n(1) have "set new \<subseteq> set (call_lines env compare_file compare highlowres file_names)"
    by (rule set_mono_prefix)
  then have "\<forall>x \<in> set new. \<exists>f \<in> set file_names.
            (compare \<and> (\<exists>n. 400 < n \<and> x = f @ ''  SIFT Matches:'' @ str_nat n @ [CHR 0x0A]))
            \<or> (\<not> compare \<and> highlowres
                 \<and> (\<exists>m. m < 1000 \<and> x = f @ '' '' @ str_float env m @ '' '' @ [CHR 0x0A]))"
    using call_lines_form [where env = env and compare_file = compare_file and compare = compare
      and highlowres = highlowres and file_names = file_names] by blast
  with n(2) Raised show ?thesis
    by (intro exI [of _ new]) simp
qed

theorem match_record_lines_witness:
  "\<exists>new. ((new = []
             \<and> files (world_after (image_compare example_env (Some tex_files) ''/home/u/key.png''
                        ''11_03_26_15_15_00PM_matches.txt'' False False True empty_world)) = files empty_world)
          \<or> files (world_after (image_compare example_env (Some tex_files) ''/home/u/key.png''
                      ''11_03_26_15_15_00PM_matches.txt'' False False True empty_world))
              = (files empty_world)(''11_03_26_15_15_00PM_matches.txt'' \<mapsto>
                   log_lines empty_world ''11_03_26_15_15_00PM_matches.txt'' @ new))
      \<and> (\<forall>processed w'.
            image_compare example_env (Some tex_files) ''/home/u/key.png''
              ''11_03_26_15_15_00PM_matches.txt'' False False True empty_world
              = Returned processed w' \<longrightarrow>
            files w' = (if new = [] then files empty_world
                        else (files empty_world)(''11_03_26_15_15_00PM_matches.txt'' \<mapsto>
                               log_lines empty_world ''11_03_26_15_15_00PM_matches.txt'' @ new)))
      \<and> (\<forall>x \<in> set new. \<exists>f \<in> set tex_files.
            (False \<and> (\<exists>n. 400 < n \<and> x = f @ ''  SIFT Matches:'' @ str_nat n @ [CHR 0x0A]))
            \<or> (\<not> False \<and> True
                 \<and> (\<exists>m. m < 1000 \<and> x = f @ '' '' @ str_float example_env m @ '' '' @ [CHR 0x0A])))"
  by (rule match_record_lines)

text \<open>
  The run of \<open>main\<close> on the small installation: the four lines it writes end with a space and
  a newline, which is not the form \<open>spec_match_record\<close>.
\<close>

theorem match_record_format_counterexample:
  "log_lines (world_after (main example_env empty_world)) ''11_03_26_15_15_00PM_matches.txt''
     = [''tex/a.png 0.0 '' @ [CHR 0x0A], ''tex/b.png 0.0 '' @ [CHR 0x0A],
        ''tex/c.png 0.0 '' @ [CHR 0x0A], ''tex/d.png 0.0 '' @ [CHR 0x0A]]
   \<and> str_float example_env (mse (gray_image 0) (gray_image 0)) = ''0.0''
   \<and> ''tex/a.png 0.0 '' @ [CHR 0x0A]
       \<noteq> spec_match_record ''tex/a.png'' (str_float example_env (mse (gray_image 0) (gray_image 0)))"
  by (simp add: ev_main_example spec_match_record_def example_env_simps log_lines_def)




subsection \<open>One metric per candidate\<close>

lemma compare_candidate_metric:
  "\<exists>ms. metric_calls (world_after (compare_candidate env key_img log_filename verbose compare highlowres file_name w))
          = metric_calls w @ ms
      \<and> (ms = [] \<or> ms = [(file_name, if compare then SIFT else MSE)])
      \<and> (\<not> compare \<and> \<not> highlowres \<longrightarrow> ms = [])"
  by (cases "pil_load env file_name")
     (auto simp: compare_candidate_def log_match_def Let_def split: option.splits)

lemma scan_metric:
  "\<exists>ms. metric_calls (world_after (scan env key_img log_filename verbose compare highlowres file_names processed w))
          = metric_calls w @ ms
      \<and> subseq (map fst ms) file_names
      \<and> (\<forall>x \<in> set ms. snd x = (if compare then SIFT else MSE))
      \<and> (\<not> compare \<and> \<not> highlowres \<longrightarrow> ms = [])"
proof (induction file_names arbitrary: processed w)
  case Nil
  show ?case by simp
next
  case (Cons f rest)
  let ?r = "compare_candidate env key_img log_filename verbose compare highlowres f w"
  obtain ms1 where m1: "metric_calls (world_after ?r) = metric_calls w @ ms1"
    "ms1 = [] \<or> ms1 = [(f, if compare then SIFT else MSE)]"
    "\<not> compare \<and> \<not> highlowres \<longrightarrow> ms1 = []"
    using compare_candidate_metric [of env key_img log_filename verbose compare highlowres f w] by blast
  have sub1: "subseq (map fst ms1) [f]" using m1(2) by auto
  show ?case
  proof (cases ?r)
    case (Raised e w')
    have "subseq (map fst ms1 @ []) ([f] @ rest)"
      using sub1 by (rule list_emb_append_mono) simp
    then have "subseq (map fst ms1) (f # rest)" by simp
    with Raised m1 show ?thesis by (intro exI [of _ ms1]) auto
  next
    case (Returned u w')
    let ?s = "scan env key_img log_filename verbose compare highlowres rest (processed + 1) w'"
    obtain ms2 where m2: "metric_calls (world_after ?s) = metric_calls w' @ ms2"
      "subseq (map fst ms2) rest" "\<forall>x \<in> set ms2. snd x = (if compare then SIFT else MSE)"
      "\<not> compare \<and> \<not> highlowres \<longrightarrow> ms2 = []"
      using Cons.IH [of "processed + 1" w'] by blast
    have w': "world_after ?r = w'" using Returned by simp
    have "subseq (map fst ms1 @ map fst ms2) ([f] @ rest)"
      using sub1 m2(2) by (rule list_emb_append_mono)
    then have "subseq (map fst (ms1 @ ms2)) (f # rest)" by simp
    moreover have "metric_calls (world_after ?s) = metric_calls w @ ms1 @ ms2"
      using m1(1) m2(1) w' by simp
    moreover have "world_after (scan env key_img log_filename verbose compare highlowres (f # rest) processed w) = world_after ?s"
      using Returned by simp
    ultimately show ?thesis
      using m1 m2 by (intro exI [of _ "ms1 @ ms2"]) auto
  qed
qed

lemma image_compare_metric:
  "\<exists>ms. metric_calls (world_after (image_compare env filename_list compare_file log_filename verbose compare highlowres w))
          = metric_calls w @ ms
      \<and> subseq (map fst ms) (case filename_list of None \<Rightarrow> [] | Some file_names \<Rightarrow> file_names)
      \<and> (\<forall>x \<in> set ms. snd x = (if compare then SIFT else MSE))
      \<and> (\<not> compare \<and> \<not> highlowres \<longrightarrow> ms = [])"
proof (cases "load_key env compare_file w")
  case (Raised e w')
  then show ?thesis using load_key_Raised [OF Raised] by (simp add: image_compare_def)
next
  case (Returned key_img w0)
  then have w0: "w0 = w" by (rule load_key_Returned)
  show ?thesis
  proof (cases filename_list)
    case None
    with Returned w0 show ?thesis by (simp add: image_compare_def)
  next
    case (Some file_names)
    have "metric_calls (world_after (image_compare env filename_list compare_file log_filename verbose compare highlowres w))
         = metric_calls (world_after (scan env key_img log_filename verbose compare highlowres file_names 0 w))"
      using Returned w0 Some by (simp add: image_compare_def split: outcome.splits)
    then show ?thesis
      using scan_metric [of env key_img log_filename verbose compare highlowres file_names 0 w] Some
      by simp
  qed
qed

lemma compare_candidate_no_mode:
  "world_after (compare_candidate env key_img log_filename verbose False False file_name w) = w"
  by (simp add: compare_candidate_def split: sum.splits option.splits)

lemma scan_no_mode:
  "world_after (scan env key_img log_filename verbose False False file_names processed w) = w"
proof (induction file_names arbitrary: processed w)
  case Nil
  show ?case by simp
next
  case (Cons f rest)
  show ?case
  proof (cases "compare_candidate env key_img log_filename verbose False False f w")
    case (Raised e w')
    with compare_candidate_no_mode [of env key_img log_filename verbose f w] show ?thesis by simp
  next
    case (Returned u w')
    with compare_candidate_no_mode [of env key_img log_filename verbose f w] have "w' = w" by simp
    with Returned Cons.IH show ?thesis by simp
  qed
qed

lemma image_compare_no_mode_files:
  "files (world_after (image_compare env filename_list compare_file log_filename verbose False False w)) = files w"
proof (cases "load_key env compare_file w")
  case (Raised e w')
  then show ?thesis using load_key_Raised [OF Raised] by (simp add: image_compare_def)
next
  case (Returned key_img w0)
  then have w0: "w0 = w" by (rule load_key_Returned)
  show ?thesis
  proof (cases filename_list)
    case None
    with Returned w0 show ?thesis by (simp add: image_compare_def)
  next
    case (Some file_names)
    have "files (world_after (image_compare env filename_list compare_file log_filename verbose False False w))
         = files (world_after (scan env key_img log_filename verbose False False file_names 0 w))"
      using Returned w0 Some by (simp add: image_compare_def split: outcome.splits)
    then show ?thesis by (simp add: scan_no_mode)
  qed
qed

lemma compare_candidate_compare_flag:
  "compare_candidate env key_img log_filename verbose True True file_name w
   = compare_candidate env key_img log_filename verbose True False file_name w"
  by (simp add: compare_candidate_def split: sum.splits option.splits)

lemma scan_compare_flag:
  "scan env key_img log_filename verbose True True file_names processed w
   = scan env key_img log_filename verbose True False file_names processed w"
  by (induction file_names arbitrary: processed w)
     (simp_all add: compare_candidate_compare_flag split: outcome.splits)

lemma image_compare_compare_flag:
  "image_compare env filename_list compare_file log_filename verbose True highlowres w
   = image_compare env filename_list compare_file log_filename verbose True False w"
  by (cases highlowres)
     (simp_all add: image_compare_def scan_compare_flag split: outcome.splits option.splits)

text \<open>
  C10: a call of \<open>image_compare\<close> runs at most one metric for each candidate, in the order
  of the list; with \<open>compare\<close> true every metric it runs is SIFT, the result does not depend
  on \<open>highlowres\<close>, and a decoded candidate does get its SIFT comparison; with both flags
  false no metric runs and no file changes.
\<close>

theorem one_metric_branch:
  "(\<exists>ms. metric_calls (world_after (image_compare env filename_list compare_file log_filename verbose compare highlowres w))
          = metric_calls w @ ms
      \<and> subseq (map fst ms) (case filename_list of None \<Rightarrow> [] | Some file_names \<Rightarrow> file_names)
      \<and> (compare \<longrightarrow> (\<forall>x \<in> set ms. snd x = SIFT))
      \<and> (\<not> compare \<and> \<not> highlowres \<longrightarrow>
           ms = []
           \<and> files (world_after (image_compare env filename_list compare_file log_filename verbose compare highlowres w))
               = files w))
   \<and> image_compare env filename_list compare_file log_filename verbose True highlowres w
     = image_compare env filename_list compare_file log_filename verbose True False w
   \<and> (pil_load env file_name = Inr tex_buf \<and> cv_gray env tex_buf = Some tex_img \<longrightarrow>
        metric_calls (world_after (compare_candidate env key_img log_filename verbose True highlowres file_name w))
          = metric_calls w @ [(file_name, SIFT)])"
proof (intro conjI)
  obtain ms where m: "metric_calls (world_after (image_compare env filename_list compare_file log_filename verbose compare highlowres w))
          = metric_calls w @ ms"
      "subseq (map fst ms) (case filename_list of None \<Rightarrow> [] | Some file_names \<Rightarrow> file_names)"
      "\<forall>x \<in> set ms. snd x = (if compare then SIFT else MSE)"
      "\<not> compare \<and> \<not> highlowres \<longrightarrow> ms = []"
    using image_compare_metric [of env filename_list compare_file log_filename verbose compare highlowres w] by blast
  have "\<not> compare \<and> \<not> highlowres \<longrightarrow>
      files (world_after (image_compare env filename_list compare_file log_filename verbose compare highlowres w)) = files w"
    using image_compare_no_mode_files [of env filename_list compare_file log_filename verbose w] by auto
  with m show "\<exists>ms. metric_calls (world_after (image_compare env filename_list compare_file log_filename verbose compare highlowres w))
          = metric_calls w @ ms
      \<and> subseq (map fst ms) (case filename_list of None \<Rightarrow> [] | Some file_names \<Rightarrow> file_names)
      \<and> (compare \<longrightarrow> (\<forall>x \<in> set ms. snd x = SIFT))
      \<and> (\<not> compare \<and> \<not> highlowres \<longrightarrow>
           ms = []
           \<and> files (world_after (image_compare env filename_list compare_file log_filename verbose compare highlowres w))
               = files w)"
    by (intro exI [of _ ms]) simp
next
  show "image_compare env filename_list compare_file log_filename verbose True highlowres w
     = image_compare env filename_list compare_file log_filename verbose True False w"
    by (rule image_compare_compare_flag)
next
  show "pil_load env file_name = Inr tex_buf \<and> cv_gray env tex_buf = Some tex_img \<longrightarrow>
        metric_calls (world_after (compare_candidate env key_img log_filename verbose True highlowres file_name w))
          = metric_calls w @ [(file_name, SIFT)]"
    by (auto simp: compare_candidate_def log_match_def Let_def split: option.splits)
qed

theorem one_metric_branch_witness:
  "pil_load example_env ''tex/a.png'' = Inr png_bytes
   \<and> cv_gray example_env png_bytes = Some (gray_image 0)
   \<and> metric_calls (world_after (compare_candidate example_env (gray_image 0) ''log.txt'' False True True
                                   ''tex/a.png'' empty_world))
       = metric_calls empty_world @ [(''tex/a.png'', SIFT)]
   \<and> image_compare example_env (Some tex_files) ''/home/u/key.png'' ''log.txt'' False True True empty_world
       = image_compare example_env (Some tex_files) ''/home/u/key.png'' ''log.txt'' False True False empty_world
   \<and> (\<exists>ms. metric_calls (world_after (image_compare example_env (Some tex_files) ''/home/u/key.png''
                                          ''log.txt'' False False False empty_world))
               = metric_calls empty_world @ ms
          \<and> ms = []
          \<and> files (world_after (image_compare example_env (Some tex_files) ''/home/u/key.png''
                                   ''log.txt'' False False False empty_world))
              = files empty_world)"
proof -
  have h1: "pil_load example_env ''tex/a.png'' = Inr png_bytes" by (simp add: example_pil_load)
  have h2: "cv_gray example_env png_bytes = Some (gray_image 0)" by (simp add: example_env_simps)
  note a = one_metric_branch [where env = example_env and filename_list = "Some tex_files"
      and compare_file = "''/home/u/key.png''" and log_filename = "''log.txt''" and verbose = False
      and compare = False and highlowres = False and w = empty_world]
  note b = one_metric_branch [where env = example_env and filename_list = "Some tex_files"
      and compare_file = "''/home/u/key.png''" and log_filename = "''log.txt''" and verbose = False
      and highlowres = True and w = empty_world and file_name = "''tex/a.png''" and tex_buf = png_bytes
      and tex_img = "gray_image 0" and key_img = "gray_image 0"]
  from a have c1: "\<exists>ms. metric_calls (world_after (image_compare example_env (Some tex_files) ''/home/u/key.png''
                                          ''log.txt'' False False False empty_world))
               = metric_calls empty_world @ ms
          \<and> ms = []
          \<and> files (world_after (image_compare example_env (Some tex_files) ''/home/u/key.png''
                                   ''log.txt'' False False False empty_world))
              = files empty_world"
    by blast
  from b h1 h2 have c2: "metric_calls (world_after (compare_candidate example_env (gray_image 0) ''log.txt'' False True True
                                   ''tex/a.png'' empty_world))
       = metric_calls empty_world @ [(''tex/a.png'', SIFT)]"
    by blast
  from b have c3: "image_compare example_env (Some tex_files) ''/home/u/key.png'' ''log.txt'' False True True empty_world
       = image_compare example_env (Some tex_files) ''/home/u/key.png'' ''log.txt'' False True False empty_world"
    by blast
  from h1 h2 c1 c2 c3 show ?thesis by blast
qed

subsection \<open>The workers\<close>

lemma multithreading_compare_started:
  assumes "use_threading \<in> {2, 3, 4}"
  shows "\<exists>d' w'. multithreading_compare filename_list argument_dict use_threading w = Returned d' w'
      \<and> started w' = started w @ map (\<lambda>c. argument_dict\<lparr>arg_filename_list := Some c\<rparr>)
                                     (filename_list_chunks filename_list use_threading)
      \<and> files w' = files w \<and> stdout w' = stdout w"
proof -
  consider "use_threading = 2" | "use_threading = 3" | "use_threading = 4"
    using assms by auto
  then show ?thesis
  proof cases
    case 1
    then show ?thesis by (simp add: multithreading_compare_def chunks_2 Let_def)
  next
    case 2
    then show ?thesis by (simp add: multithreading_compare_def chunks_3 Let_def)
  next
    case 3
    then show ?thesis by (simp add: multithreading_compare_def chunks_4 Let_def)
  qed
qed

text \<open>
  C8: with 2, 3 or 4 workers, \<open>run_search\<close> fixes the name of the log file first and
  starts one worker for each chunk of the partition, in order; each worker's keyword
  arguments are the run's dictionary with that log file name, and with \<open>filename_list\<close>
  set to the worker's chunk and nothing else changed.
\<close>

theorem workers_share_configuration:
  assumes "use_threading \<in> {2, 3, 4}"
  shows "\<exists>w'. run_search env argument_dict texture_path use_threading w = Returned () w'
      \<and> started w' = started w @
          map (\<lambda>c. argument_dict\<lparr>arg_log_filename := Some (time_prefix env @ ''_matches.txt''),
                                 arg_filename_list := Some c\<rparr>)
              (filename_list_chunks (glob env (texture_path @ ''*'')) use_threading)"
proof -
  let ?d = "argument_dict\<lparr>arg_log_filename := Some (time_prefix env @ ''_matches.txt'')\<rparr>"
  let ?fl = "glob env (texture_path @ ''*'')"
  let ?w1 = "if length ?fl = 0
      then print_line ''Error: no files in path_to_textures, are you sure you provided the right directory?'' w
      else w"
  obtain d' w' where m: "multithreading_compare ?fl ?d use_threading ?w1 = Returned d' w'"
    "started w' = started ?w1 @ map (\<lambda>c. ?d\<lparr>arg_filename_list := Some c\<rparr>) (filename_list_chunks ?fl use_threading)"
    using multithreading_compare_started [OF assms, of ?fl ?d ?w1] by blast
  have nz: "use_threading \<noteq> 0" using assms by auto
  have "run_search env argument_dict texture_path use_threading w = Returned () w'"
    using m(1) nz by (simp add: run_search_def Let_def)
  moreover have "started ?w1 = started w" by simp
  ultimately show ?thesis using m(2) by simp
qed

theorem workers_share_configuration_witness:
  "(4::int) \<in> {2, 3, 4}
   \<and> filename_list_chunks (glob example_env (''tex/'' @ ''*'')) 4
       = [[''tex/a.png''], [''tex/b.png''], [''tex/c.png''], [''tex/d.png'', ''tex/notes.txt'']]
   \<and> (\<exists>w'. run_search example_env
              \<lparr>arg_compare_file = ''/home/u/key.png'', arg_verbose = Some False, arg_compare = None,
                arg_highlowres = Some True, arg_log_filename = None, arg_filename_list = None\<rparr>
              ''tex/'' 4 empty_world = Returned () w'
          \<and> started w' = started empty_world @
              map (\<lambda>c. \<lparr>arg_compare_file = ''/home/u/key.png'', arg_verbose = Some False, arg_compare = None,
                          arg_highlowres = Some True, arg_log_filename = None, arg_filename_list = None\<rparr>
                        \<lparr>arg_log_filename := Some (time_prefix example_env @ ''_matches.txt''),
                         arg_filename_list := Some c\<rparr>)
                  (filename_list_chunks (glob example_env (''tex/'' @ ''*'')) 4))"
proof -
  have h: "(4::int) \<in> {2, 3, 4}" by simp
  have v: "filename_list_chunks (glob example_env (''tex/'' @ ''*'')) 4
       = [[''tex/a.png''], [''tex/b.png''], [''tex/c.png''], [''tex/d.png'', ''tex/notes.txt'']]"
    by (simp add: chunks_4 example_env_simps tex_files_def)
  from workers_share_configuration [OF h, where env = example_env and texture_path = "''tex/''"
      and w = empty_world
      and argument_dict = "\<lparr>arg_compare_file = ''/home/u/key.png'', arg_verbose = Some False, arg_compare = None,
                arg_highlowres = Some True, arg_log_filename = None, arg_filename_list = None\<rparr>"]
  show ?thesis using h v by blast
qed

end
